theory Spec2Isabelle
  imports Complex_Main
begin

section \<open>Numbers and strings\<close>

text \<open>
  Token quantities travel as decimal strings (\<^verbatim>\<open>amt\<close>, \<^verbatim>\<open>max\<close>, \<^verbatim>\<open>lim\<close>) and are
  compared through \<^verbatim>\<open>bignumber.js\<close>; the store keeps them in numeric columns. A numeric
  value is a rational here. \<open>BigNumber\<close> reads plain decimal notation (digits, at most one
  point); any other string is not a number (\<open>None\<close>, the library's NaN). Signs and
  exponents are not read: the protocol parser (\<^verbatim>\<open>helpers.ts\<close>, not among the sources)
  hands over plain positive decimals only.
\<close>

definition isDigit :: "char \<Rightarrow> bool" where
  "isDigit c = (c \<in> set ''0123456789'')"

definition digitsValue :: "string \<Rightarrow> int" where
  "digitsValue ds = foldl (\<lambda>a c. 10 * a + (of_char c - 48)) 0 ds"

definition BigNumber :: "string \<Rightarrow> rat option" where
  "BigNumber str =
     (let ip = takeWhile (\<lambda>c. c \<noteq> CHR ''.'') str;
          fp = drop 1 (dropWhile (\<lambda>c. c \<noteq> CHR ''.'') str)
      in if list_all isDigit ip \<and> list_all isDigit fp \<and> ip @ fp \<noteq> []
         then Some (of_int (digitsValue ip) + of_int (digitsValue fp) / 10 ^ length fp)
         else None)"

text \<open>\<^verbatim>\<open>parseInt\<close> of a column of digits, as the \<^verbatim>\<open>decimals\<close> column holds it.\<close>

definition parseInt :: "string \<Rightarrow> nat option" where
  "parseInt ds = (if ds \<noteq> [] \<and> list_all isDigit ds then Some (nat (digitsValue ds)) else None)"

text \<open>JavaScript's \<^verbatim>\<open>str.split(sep)\<close> for a one-character separator.\<close>

fun str_split :: "char \<Rightarrow> string \<Rightarrow> string list" where
  "str_split sep [] = [[]]"
| "str_split sep (c # cs) =
     (if c = sep then [] # str_split sep cs
      else (case str_split sep cs of
              [] \<Rightarrow> [[c]]
            | w # ws \<Rightarrow> (c # w) # ws))"

definition str_includes :: "string \<Rightarrow> char \<Rightarrow> bool" where
  "str_includes str c = (c \<in> set str)"

text \<open>
  Tickers are folded to lower case by JavaScript's \<^verbatim>\<open>toLowerCase\<close> and by SQL's
  \<^verbatim>\<open>LOWER\<close>. Both belong to the platform, not to the sources, and both fold the letters
  of every script; the code compares the result of the one with the result of the other
  (\<^verbatim>\<open>LOWER(d.ticker) IN lowerTickers\<close>), so one function stands for both. It is the
  parameter \<open>lower\<close> of every definition that folds a ticker, and nothing is assumed of
  it: what is proved holds for the fold of the platform, whatever letters it folds.

  The examples need one fold to compute with: \<open>lower_latin1\<close> folds the letters of ASCII
  and of Latin-1 in a string of UTF-8 bytes (\<open>0xC3 0x89\<close> is the capital E with acute,
  \<open>0xC3 0xA9\<close> the small one).
\<close>

definition lower_ascii :: "char \<Rightarrow> char" where
  "lower_ascii c =
     (if (65::nat) \<le> of_char c \<and> of_char c \<le> (90::nat)
      then char_of (of_char c + (32::nat)) else c)"

definition lower_c3 :: "char \<Rightarrow> char" where
  "lower_c3 c =
     (if (128::nat) \<le> of_char c \<and> of_char c \<le> (158::nat) \<and> of_char c \<noteq> (151::nat)
      then char_of (of_char c + (32::nat)) else c)"

fun lower_latin1 :: "string \<Rightarrow> string" where
  "lower_latin1 [] = []"
| "lower_latin1 [c] = [lower_ascii c]"
| "lower_latin1 (c # d # cs) =
     (if of_char c = (195::nat) then c # lower_c3 d # lower_latin1 cs
      else lower_ascii c # lower_latin1 (d # cs))"

section \<open>Operations and rows\<close>

text \<open>
  Modelled from the spec: the operation types of \<^verbatim>\<open>helpers.ts\<close>, which is not among the
  sources. They are what \<^verbatim>\<open>brc20FromInscription\<close> returns, with the fields the store
  reads (\<^verbatim>\<open>tick\<close>, \<^verbatim>\<open>max\<close>, \<^verbatim>\<open>lim\<close>, \<^verbatim>\<open>dec\<close>, \<^verbatim>\<open>amt\<close>), each the string of the
  inscription's JSON. A location carries the block height, the transaction and the
  address, which is absent when the inscription was spent as fee.
\<close>

record Brc20Deploy =
  deploy_tick :: string
  deploy_max :: string
  deploy_lim :: "string option"
  deploy_dec :: "string option"

record Brc20Mint =
  mint_tick :: string
  mint_amt :: string

record Brc20Transfer =
  transfer_tick :: string
  transfer_amt :: string

datatype Brc20 = Deploy Brc20Deploy | Mint Brc20Mint | Transfer Brc20Transfer

record DbLocationInsert =
  block_height :: nat
  tx_id :: string
  address :: "string option"

text \<open>
  Modelled from the spec: the row types (\<^verbatim>\<open>types.ts\<close>) and the tables (the migrations),
  which are not among the sources. The columns are those of the spec's schema, as the
  inserts of the store fill them; numeric columns hold rationals. A serial \<^verbatim>\<open>id\<close> is kept
  where the code reads it (deploys, transfers): a new row takes the next number. A table
  is the list of its rows in the order they were inserted.
\<close>

record DbBrc20Deploy =
  d_id :: nat
  d_inscription_id :: nat
  d_block_height :: nat
  d_tx_id :: string
  d_address :: string
  d_ticker :: string
  d_max :: rat
  d_limit :: "rat option"
  d_decimals :: nat

record DbBrc20Mint =
  m_inscription_id :: nat
  m_brc20_deploy_id :: nat
  m_block_height :: nat
  m_tx_id :: string
  m_address :: "string option"
  m_amount :: rat

record DbBrc20Transfer =
  t_id :: nat
  t_inscription_id :: nat
  t_brc20_deploy_id :: nat
  t_block_height :: nat
  t_tx_id :: string
  t_from_address :: string
  t_to_address :: "string option"
  t_amount :: rat

record DbBrc20BalanceInsert =
  b_inscription_id :: nat
  b_brc20_deploy_id :: nat
  b_block_height :: nat
  b_address :: "string option"
  b_avail_balance :: rat
  b_trans_balance :: rat

record DbBrc20EventInsert =
  e_inscription_id :: nat
  e_brc20_deploy_id :: nat
  e_deploy_id :: "nat option"
  e_mint_id :: "nat option"
  e_transfer_id :: "nat option"

record DbLocation =
  l_inscription_id :: nat
  l_block_height :: nat
  l_address :: "string option"

record db =
  brc20_deploys :: "DbBrc20Deploy list"
  brc20_mints :: "DbBrc20Mint list"
  brc20_transfers :: "DbBrc20Transfer list"
  brc20_balances :: "DbBrc20BalanceInsert list"
  brc20_events :: "DbBrc20EventInsert list"
  locations :: "DbLocation list"

definition empty_db :: db where
  "empty_db = \<lparr>brc20_deploys = [], brc20_mints = [], brc20_transfers = [],
     brc20_balances = [], brc20_events = [], locations = []\<rparr>"

text \<open>
  What can go wrong in a call: a \<^verbatim>\<open>TypeError\<close> of JavaScript (a property of
  \<^verbatim>\<open>undefined\<close>), a string the numeric column refuses, a null in a column that takes
  none. A failed call throws out of its transaction, which writes nothing.
\<close>

datatype error = TypeError | InvalidNumeric | NotNullViolation

section \<open>Reads\<close>

record DbBrc20Balance =
  ticker :: string
  avail_balance :: rat
  trans_balance :: rat
  total_balance :: rat

record DbBrc20BalanceResult =
  total :: nat
  results :: "DbBrc20Balance list"

record DbBrc20Supply =
  max_supply :: rat
  minted_supply :: rat
  holders :: nat

text \<open>\<^verbatim>\<open>getDeploy\<close>: the first deploy whose lowercased ticker is the lowercased argument.\<close>

definition getDeploy :: "(string \<Rightarrow> string) \<Rightarrow> db \<Rightarrow> string \<Rightarrow> DbBrc20Deploy option" where
  "getDeploy lower s tk = find (\<lambda>d. lower (d_ticker d) = lower tk) (brc20_deploys s)"

text \<open>
  \<^verbatim>\<open>getBalances\<close>: the balance rows of the address joined with their deploys, kept when
  the deploy's lowercased ticker is among the lowercased filter, grouped by ticker and
  summed; then \<^verbatim>\<open>LIMIT\<close> and \<^verbatim>\<open>OFFSET\<close>. \<^verbatim>\<open>total\<close> is the window count of the first
  row returned, 0 when there is none.
\<close>

definition balanceJoin :: "(string \<Rightarrow> string) \<Rightarrow> db \<Rightarrow> string \<Rightarrow> string list option
    \<Rightarrow> (DbBrc20BalanceInsert \<times> DbBrc20Deploy) list" where
  "balanceJoin lower s addr tickers =
     concat (map (\<lambda>b. map (\<lambda>d. (b, d))
       (filter (\<lambda>d. d_id d = b_brc20_deploy_id b \<and> b_address b = Some addr \<and>
          (case tickers of None \<Rightarrow> True
           | Some ts \<Rightarrow> lower (d_ticker d) \<in> set (map lower ts)))
          (brc20_deploys s))) (brc20_balances s))"

definition balanceGroup :: "(DbBrc20BalanceInsert \<times> DbBrc20Deploy) list \<Rightarrow> string
    \<Rightarrow> DbBrc20Balance" where
  "balanceGroup joined tk =
     (let g = map fst (filter (\<lambda>bd. d_ticker (snd bd) = tk) joined)
      in \<lparr>ticker = tk,
          avail_balance = sum_list (map b_avail_balance g),
          trans_balance = sum_list (map b_trans_balance g),
          total_balance = sum_list (map (\<lambda>b. b_avail_balance b + b_trans_balance b) g)\<rparr>)"

definition getBalances :: "(string \<Rightarrow> string) \<Rightarrow> db \<Rightarrow> string \<Rightarrow> string list option \<Rightarrow> nat \<Rightarrow> nat
    \<Rightarrow> DbBrc20BalanceResult" where
  "getBalances lower s addr tickers limit_n offset_n =
     (let joined = balanceJoin lower s addr tickers;
          rows = map (balanceGroup joined) (remdups (map (\<lambda>bd. d_ticker (snd bd)) joined));
          page = take limit_n (drop offset_n rows)
      in \<lparr>total = (if page = [] then 0 else length rows), results = page\<rparr>)"

text \<open>
  \<^verbatim>\<open>getTokenSupply\<close>. \<^verbatim>\<open>minted\<close> is grouped by deploy id, so it has no row when the
  token has no balance row; \<^verbatim>\<open>holders\<close> is a plain count and always has one row. The
  result reads \<^verbatim>\<open>supply[0]\<close>, \<^verbatim>\<open>minted[0]\<close> and \<^verbatim>\<open>holders[0]\<close> with no guard: a missing
  first row is a \<^verbatim>\<open>TypeError\<close>. An unknown ticker returns \<^verbatim>\<open>undefined\<close> (\<open>Inr None\<close>).
\<close>

definition tokenBalances :: "db \<Rightarrow> nat \<Rightarrow> DbBrc20BalanceInsert list" where
  "tokenBalances s i = filter (\<lambda>b. b_brc20_deploy_id b = i) (brc20_balances s)"

definition mintedRows :: "db \<Rightarrow> nat \<Rightarrow> rat list" where
  "mintedRows s i =
     (if tokenBalances s i = [] then []
      else [sum_list (map (\<lambda>b. b_avail_balance b + b_trans_balance b) (tokenBalances s i))])"

definition holdersCount :: "db \<Rightarrow> nat \<Rightarrow> nat" where
  "holdersCount s i =
     length (filter (\<lambda>a. 0 < sum_list (map (\<lambda>b. b_avail_balance b + b_trans_balance b)
                              (filter (\<lambda>b. b_address b = a) (tokenBalances s i))))
       (remdups (map b_address (tokenBalances s i))))"

definition getTokenSupply :: "(string \<Rightarrow> string) \<Rightarrow> db \<Rightarrow> string \<Rightarrow> error + DbBrc20Supply option" where
  "getTokenSupply lower s tk =
     (case getDeploy lower s tk of
        None \<Rightarrow> Inr None
      | Some deploy \<Rightarrow>
          (let minted = mintedRows s (d_id deploy);
               holderRows = [holdersCount s (d_id deploy)];
               supply = map d_max (filter (\<lambda>d. d_id d = d_id deploy) (brc20_deploys s))
           in case supply of
                [] \<Rightarrow> Inl TypeError
              | mx # _ \<Rightarrow>
                  (case minted of
                     [] \<Rightarrow> Inl TypeError
                   | tot # _ \<Rightarrow>
                       (case holderRows of
                          [] \<Rightarrow> Inl TypeError
                        | cnt # _ \<Rightarrow>
                            Inr (Some \<lparr>max_supply = mx, minted_supply = tot,
                                       holders = cnt\<rparr>)))))"

section \<open>Writes\<close>

text \<open>
  JavaScript's truth test of an address: \<^verbatim>\<open>null\<close> and the empty string are both false.
\<close>

definition truthy :: "string option \<Rightarrow> bool" where
  "truthy a = (case a of None \<Rightarrow> False | Some v \<Rightarrow> v \<noteq> [])"

text \<open>\<^verbatim>\<open>x.isGreaterThan(y)\<close>: false when \<open>x\<close> is not a number.\<close>

definition isGreaterThan :: "rat option \<Rightarrow> rat \<Rightarrow> bool" where
  "isGreaterThan x y = (case x of None \<Rightarrow> False | Some a \<Rightarrow> y < a)"

text \<open>An optional numeric string on its way into a nullable numeric column.\<close>

definition numericOrNull :: "string option \<Rightarrow> rat option option" where
  "numericOrNull v = (case v of None \<Rightarrow> Some None | Some str \<Rightarrow> map_option Some (BigNumber str))"

text \<open>
  \<^verbatim>\<open>INSERT INTO brc20_balances\<close>. The migrations are not among the sources, so whether the
  \<^verbatim>\<open>address\<close> column is \<^verbatim>\<open>NOT NULL\<close> is the parameter \<open>nn\<close>: when it is, a row with no
  address is refused and the call fails.
\<close>

definition insertBalances :: "bool \<Rightarrow> DbBrc20BalanceInsert list \<Rightarrow> db \<Rightarrow> error + db" where
  "insertBalances nn rows s =
     (if nn \<and> list_ex (\<lambda>b. b_address b = None) rows then Inl NotNullViolation
      else Inr (s\<lparr>brc20_balances := brc20_balances s @ rows\<rparr>))"

text \<open>
  \<^verbatim>\<open>insertDeploy\<close>. The strings are cast by the store on insert; the unique index on
  \<^verbatim>\<open>LOWER(ticker)\<close> makes \<^verbatim>\<open>ON CONFLICT DO NOTHING\<close> return no row when a deploy with
  the same lowercased ticker is there. The new row takes the next serial id.
\<close>

definition insertDeploy :: "(string \<Rightarrow> string) \<Rightarrow> db \<Rightarrow> Brc20Deploy \<Rightarrow> nat \<Rightarrow> DbLocationInsert \<Rightarrow> error + db" where
  "insertDeploy lower s deploy inscription_id location =
     (case address location of
        None \<Rightarrow> Inr s
      | Some addr \<Rightarrow>
          if addr = [] then Inr s
          else
            (case BigNumber (deploy_max deploy) of
               None \<Rightarrow> Inl InvalidNumeric
             | Some mx \<Rightarrow>
                 (case numericOrNull (deploy_lim deploy) of
                    None \<Rightarrow> Inl InvalidNumeric
                  | Some lm \<Rightarrow>
                      (case parseInt (case deploy_dec deploy of None \<Rightarrow> ''18'' | Some d \<Rightarrow> d) of
                         None \<Rightarrow> Inl InvalidNumeric
                       | Some dc \<Rightarrow>
                           if list_ex (\<lambda>d. lower (d_ticker d) = lower (deploy_tick deploy))
                                (brc20_deploys s)
                           then Inr s
                           else
                             (let new_id = Suc (length (brc20_deploys s))
                              in Inr (s\<lparr>brc20_deploys := brc20_deploys s @
                                          [\<lparr>d_id = new_id,
                                            d_inscription_id = inscription_id,
                                            d_block_height = block_height location,
                                            d_tx_id = tx_id location,
                                            d_address = addr,
                                            d_ticker = deploy_tick deploy,
                                            d_max = mx,
                                            d_limit = lm,
                                            d_decimals = dc\<rparr>],
                                        brc20_events := brc20_events s @
                                          [\<lparr>e_inscription_id = inscription_id,
                                            e_brc20_deploy_id = new_id,
                                            e_deploy_id = Some new_id,
                                            e_mint_id = None,
                                            e_transfer_id = None\<rparr>]\<rparr>))))))"

text \<open>\<^verbatim>\<open>SELECT COALESCE(SUM(amount), 0) FROM brc20_mints WHERE brc20_deploy_id = id\<close>.\<close>

definition mintedSupply :: "db \<Rightarrow> nat \<Rightarrow> rat" where
  "mintedSupply s i =
     sum_list (map m_amount (filter (\<lambda>m. m_brc20_deploy_id m = i) (brc20_mints s)))"

definition insertMint :: "(string \<Rightarrow> string) \<Rightarrow> bool \<Rightarrow> db \<Rightarrow> Brc20Mint \<Rightarrow> nat \<Rightarrow> DbLocationInsert \<Rightarrow> error + db" where
  "insertMint lower nn s mint inscription_id location =
     (case getDeploy lower s (mint_tick mint) of
        None \<Rightarrow> Inr s
      | Some token \<Rightarrow>
          if (case d_limit token of
                None \<Rightarrow> False
              | Some lm \<Rightarrow> isGreaterThan (BigNumber (mint_amt mint)) lm)
          then Inr s
          else if str_includes (mint_amt mint) CHR ''.'' \<and>
                  d_decimals token < length (str_split CHR ''.'' (mint_amt mint) ! 1)
          then Inr s
          else
            (let minted = mintedSupply s (d_id token);
                 availSupply = d_max token - minted
             in if availSupply \<le> 0 then Inr s
                else
                  (case BigNumber (mint_amt mint) of
                     None \<Rightarrow> Inl InvalidNumeric
                   | Some amt \<Rightarrow>
                       (let mintAmt = min availSupply amt
                        in insertBalances nn
                             [\<lparr>b_inscription_id = inscription_id,
                               b_brc20_deploy_id = d_id token,
                               b_block_height = block_height location,
                               b_address = address location,
                               b_avail_balance = mintAmt,
                               b_trans_balance = 0\<rparr>]
                             (s\<lparr>brc20_mints := brc20_mints s @
                                 [\<lparr>m_inscription_id = inscription_id,
                                   m_brc20_deploy_id = d_id token,
                                   m_block_height = block_height location,
                                   m_tx_id = tx_id location,
                                   m_address = address location,
                                   m_amount = amt\<rparr>]\<rparr>)))))"

definition insertTransfer :: "(string \<Rightarrow> string) \<Rightarrow> bool \<Rightarrow> db \<Rightarrow> Brc20Transfer \<Rightarrow> nat \<Rightarrow> DbLocationInsert
    \<Rightarrow> error + db" where
  "insertTransfer lower nn s transfer inscription_id location =
     (case address location of
        None \<Rightarrow> Inr s
      | Some addr \<Rightarrow>
          if addr = [] then Inr s
          else
            (case getDeploy lower s (transfer_tick transfer) of
               None \<Rightarrow> Inr s
             | Some token \<Rightarrow>
                 (let balanceResult = getBalances lower s addr (Some [transfer_tick transfer]) 1 0;
                      transAmt = BigNumber (transfer_amt transfer);
                      available = (case results balanceResult of
                                     [] \<Rightarrow> 0
                                   | b # _ \<Rightarrow> avail_balance b)
                  in if isGreaterThan transAmt available then Inr s
                     else
                       (case transAmt of
                          None \<Rightarrow> Inl InvalidNumeric
                        | Some amt \<Rightarrow>
                            insertBalances nn
                              [\<lparr>b_inscription_id = inscription_id,
                                b_brc20_deploy_id = d_id token,
                                b_block_height = block_height location,
                                b_address = Some addr,
                                b_avail_balance = - amt,
                                b_trans_balance = amt\<rparr>]
                              (s\<lparr>brc20_transfers := brc20_transfers s @
                                  [\<lparr>t_id = Suc (length (brc20_transfers s)),
                                    t_inscription_id = inscription_id,
                                    t_brc20_deploy_id = d_id token,
                                    t_block_height = block_height location,
                                    t_tx_id = tx_id location,
                                    t_from_address = addr,
                                    t_to_address = None,
                                    t_amount = amt\<rparr>]\<rparr>)))))"

definition applyBalanceTransfer :: "bool \<Rightarrow> db \<Rightarrow> DbBrc20Transfer \<Rightarrow> DbLocationInsert
    \<Rightarrow> error + db" where
  "applyBalanceTransfer nn s transfer location =
     (let amount = t_amount transfer;
          changes =
            [\<lparr>b_inscription_id = t_inscription_id transfer,
              b_brc20_deploy_id = t_brc20_deploy_id transfer,
              b_block_height = block_height location,
              b_address = Some (t_from_address transfer),
              b_avail_balance = 0,
              b_trans_balance = - amount\<rparr>,
             \<lparr>b_inscription_id = t_inscription_id transfer,
              b_brc20_deploy_id = t_brc20_deploy_id transfer,
              b_block_height = block_height location,
              b_address = address location,
              b_avail_balance = amount,
              b_trans_balance = 0\<rparr>]
      in case insertBalances nn changes s of
           Inl e \<Rightarrow> Inl e
         | Inr s1 \<Rightarrow>
             Inr (s1\<lparr>brc20_transfers :=
                    map (\<lambda>t. if t_id t = t_id transfer
                             then t\<lparr>t_to_address := address location\<rparr> else t)
                      (brc20_transfers s1)\<rparr>))"

text \<open>
  \<^verbatim>\<open>insertOperationTransfer\<close>: the join of the inscription's location rows with its
  transfer rows, at most three rows of it; the balance change is applied when there are
  exactly two.
\<close>

definition transferJoin :: "db \<Rightarrow> nat \<Rightarrow> DbBrc20Transfer list" where
  "transferJoin s inscription_id =
     take 3 (concat (map (\<lambda>l. filter (\<lambda>t. t_inscription_id t = l_inscription_id l)
                               (brc20_transfers s))
                       (filter (\<lambda>l. l_inscription_id l = inscription_id) (locations s))))"

definition insertOperationTransfer :: "bool \<Rightarrow> db \<Rightarrow> nat \<Rightarrow> DbLocationInsert \<Rightarrow> error + db" where
  "insertOperationTransfer nn s inscription_id location =
     (let brc20Transfer = transferJoin s inscription_id
      in if length brc20Transfer = 2
         then applyBalanceTransfer nn s (brc20Transfer ! 0) location
         else Inr s)"

text \<open>
  \<^verbatim>\<open>insertOperationGenesis\<close>; its argument \<open>brc20\<close> is what \<^verbatim>\<open>brc20FromInscription\<close> made
  of the inscription.
\<close>

definition insertOperationGenesis :: "(string \<Rightarrow> string) \<Rightarrow> bool \<Rightarrow> db \<Rightarrow> nat \<Rightarrow> Brc20 option \<Rightarrow> DbLocationInsert
    \<Rightarrow> error + db" where
  "insertOperationGenesis lower nn s inscription_id brc20 location =
     (case brc20 of
        None \<Rightarrow> Inr s
      | Some operation \<Rightarrow>
          if truthy (address location)
          then (case operation of
                  Deploy deploy \<Rightarrow> insertDeploy lower s deploy inscription_id location
                | Mint mint \<Rightarrow> insertMint lower nn s mint inscription_id location
                | Transfer transfer \<Rightarrow> insertTransfer lower nn s transfer inscription_id location)
          else Inr s)"

section \<open>The stream of inscription events\<close>

text \<open>
  Modelled from the spec: the caller of the two entry points (\<^verbatim>\<open>PgStore\<close>, not among the
  sources). For every inscription event it records the inscription's new location row
  and then hands the event to the engine, genesis events to \<^verbatim>\<open>insertOperationGenesis\<close>
  and later movements to \<^verbatim>\<open>insertOperationTransfer\<close> (which counts on the row it was
  "just inserted" with). A call that fails leaves the store as it was.
\<close>

datatype InscriptionEvent =
    GenesisEvent nat "Brc20 option" DbLocationInsert
  | TransferEvent nat DbLocationInsert

definition insertLocation :: "db \<Rightarrow> nat \<Rightarrow> DbLocationInsert \<Rightarrow> db" where
  "insertLocation s inscription_id location =
     s\<lparr>locations := locations s @
         [\<lparr>l_inscription_id = inscription_id,
           l_block_height = block_height location,
           l_address = address location\<rparr>]\<rparr>"

definition applyEvent :: "(string \<Rightarrow> string) \<Rightarrow> bool \<Rightarrow> db \<Rightarrow> InscriptionEvent \<Rightarrow> error + db" where
  "applyEvent lower nn s ev =
     (case ev of
        GenesisEvent i brc20 location \<Rightarrow>
          insertOperationGenesis lower nn (insertLocation s i location) i brc20 location
      | TransferEvent i location \<Rightarrow>
          insertOperationTransfer nn (insertLocation s i location) i location)"

definition commit :: "db \<Rightarrow> error + db \<Rightarrow> db" where
  "commit s r = (case r of Inl e \<Rightarrow> s | Inr s' \<Rightarrow> s')"

fun run :: "(string \<Rightarrow> string) \<Rightarrow> bool \<Rightarrow> db \<Rightarrow> InscriptionEvent list \<Rightarrow> db" where
  "run lower nn s [] = s"
| "run lower nn s (ev # evs) = run lower nn (commit s (applyEvent lower nn s ev)) evs"

section \<open>Quantities the properties speak of\<close>

text \<open>
  What a token has been credited so far: the sum of its balance deltas, available and
  transferable, over all addresses (the sum \<^verbatim>\<open>getTokenSupply\<close> reports as minted). Only
  mints add to it; the rows of a reserve or of a settlement cancel.
\<close>

definition creditedSupply :: "db \<Rightarrow> nat \<Rightarrow> rat" where
  "creditedSupply s i =
     sum_list (map (\<lambda>b. b_avail_balance b + b_trans_balance b) (tokenBalances s i))"

text \<open>The number of digits after the decimal point of an amount.\<close>

definition fractionDigits :: "string \<Rightarrow> nat" where
  "fractionDigits str = length (drop 1 (dropWhile (\<lambda>c. c \<noteq> CHR ''.'') str))"


text \<open>
  How many location rows and how many transfer rows an inscription has.
\<close>

definition locationCount :: "db \<Rightarrow> nat \<Rightarrow> nat" where
  "locationCount s i = length (filter (\<lambda>l. l_inscription_id l = i) (locations s))"

definition transferCount :: "db \<Rightarrow> nat \<Rightarrow> nat" where
  "transferCount s i = length (filter (\<lambda>t. t_inscription_id t = i) (brc20_transfers s))"

text \<open>
  The invariant of the ledger: deploy ids are the serial numbers, lowercased tickers are
  distinct, every mint, transfer and balance row points at a deploy, and for every token
  the requested amounts of its mint rows either sum to what it was credited or the token
  is credited in full and the requests sum to at least its maximum.
\<close>

definition ledger_inv :: "(string \<Rightarrow> string) \<Rightarrow> db \<Rightarrow> bool" where
  "ledger_inv lower s =
     (map d_id (brc20_deploys s) = map Suc [0..<length (brc20_deploys s)] \<and>
      distinct (map (\<lambda>d. lower (d_ticker d)) (brc20_deploys s)) \<and>
      (\<forall>m \<in> set (brc20_mints s). m_brc20_deploy_id m \<le> length (brc20_deploys s)) \<and>
      (\<forall>t \<in> set (brc20_transfers s). t_brc20_deploy_id t \<le> length (brc20_deploys s)) \<and>
      (\<forall>b \<in> set (brc20_balances s). b_brc20_deploy_id b \<le> length (brc20_deploys s)) \<and>
      (\<forall>d \<in> set (brc20_deploys s).
         mintedSupply s (d_id d) = creditedSupply s (d_id d) \<or>
         (creditedSupply s (d_id d) = d_max d \<and> d_max d \<le> mintedSupply s (d_id d))))"

section \<open>The ingestion queue\<close>

text \<open>
  \<^verbatim>\<open>buildOrdhookIndexer\<close> puts every delivery it takes on one \<^verbatim>\<open>PQueue\<close> with
  \<^verbatim>\<open>concurrency: 1\<close> and \<^verbatim>\<open>autoStart: true\<close>. The queue is the library's: \<^verbatim>\<open>add\<close> appends
  the job to the waiting list and starts the head of the list when fewer than
  \<^verbatim>\<open>concurrency\<close> jobs are running; when a running job settles the next one is started
  the same way; \<^verbatim>\<open>size\<close> counts the waiting jobs, not the running one. \<open>q_finished\<close>
  records the jobs in the order they ran.
\<close>

datatype 'b job = InsertBlock 'b | RollBackBlock 'b

record 'b PQueue =
  q_waiting :: "'b job list"
  q_pending :: "'b job list"
  q_finished :: "'b job list"

definition concurrency :: nat where
  "concurrency = 1"

definition idle :: "'b PQueue" where
  "idle = \<lparr>q_waiting = [], q_pending = [], q_finished = []\<rparr>"

definition size_of :: "'b PQueue \<Rightarrow> nat" where
  "size_of q = length (q_waiting q)"

definition tryToStartAnother :: "'b PQueue \<Rightarrow> 'b PQueue" where
  "tryToStartAnother q =
     (case q_waiting q of
        [] \<Rightarrow> q
      | j # js \<Rightarrow>
          if length (q_pending q) < concurrency
          then q\<lparr>q_waiting := js, q_pending := q_pending q @ [j]\<rparr>
          else q)"

definition add :: "'b PQueue \<Rightarrow> 'b job \<Rightarrow> 'b PQueue" where
  "add q j = tryToStartAnother (q\<lparr>q_waiting := q_waiting q @ [j]\<rparr>)"

definition onBlock :: "'b PQueue \<Rightarrow> 'b \<Rightarrow> bool \<times> 'b PQueue" where
  "onBlock q block =
     (if 10 < size_of q then (False, q) else (True, add q (InsertBlock block)))"

definition onBlockRollBack :: "'b PQueue \<Rightarrow> 'b \<Rightarrow> bool \<times> 'b PQueue" where
  "onBlockRollBack q block =
     (if 10 < size_of q then (False, q) else (True, add q (RollBackBlock block)))"

definition jobSettled :: "'b PQueue \<Rightarrow> 'b PQueue" where
  "jobSettled q =
     (case q_pending q of
        [] \<Rightarrow> q
      | j # js \<Rightarrow> tryToStartAnother (q\<lparr>q_pending := js, q_finished := q_finished q @ [j]\<rparr>))"

text \<open>
  What happens to the indexer: a block is offered, a rollback is offered, or the running
  job settles. \<open>offers\<close> runs a sequence of them; \<open>admitted\<close> lists, in the order of
  arrival, the jobs of the offers that were answered \<^verbatim>\<open>true\<close>.
\<close>

datatype 'b signal = BlockOffered 'b | RollBackOffered 'b | JobSettled

fun offers :: "'b PQueue \<Rightarrow> 'b signal list \<Rightarrow> 'b PQueue" where
  "offers q [] = q"
| "offers q (BlockOffered b # sigs) = offers (snd (onBlock q b)) sigs"
| "offers q (RollBackOffered b # sigs) = offers (snd (onBlockRollBack q b)) sigs"
| "offers q (JobSettled # sigs) = offers (jobSettled q) sigs"

fun admitted :: "'b PQueue \<Rightarrow> 'b signal list \<Rightarrow> 'b job list" where
  "admitted q [] = []"
| "admitted q (BlockOffered b # sigs) =
     (if fst (onBlock q b) then [InsertBlock b] else []) @ admitted (snd (onBlock q b)) sigs"
| "admitted q (RollBackOffered b # sigs) =
     (if fst (onBlockRollBack q b) then [RollBackBlock b] else []) @
       admitted (snd (onBlockRollBack q b)) sigs"
| "admitted q (JobSettled # sigs) = admitted (jobSettled q) sigs"

text \<open>The jobs of a queue in the order they run: those that ran, the running one, the waiting.\<close>

definition in_order :: "'b PQueue \<Rightarrow> 'b job list" where
  "in_order q = q_finished q @ q_pending q @ q_waiting q"

section \<open>Scenarios\<close>

definition at_A :: "nat \<Rightarrow> DbLocationInsert" where
  "at_A h = \<lparr>block_height = h, tx_id = ''tx'', address = Some ''A''\<rparr>"

definition at_B :: "nat \<Rightarrow> DbLocationInsert" where
  "at_B h = \<lparr>block_height = h, tx_id = ''tx'', address = Some ''B''\<rparr>"

definition as_fee :: "nat \<Rightarrow> DbLocationInsert" where
  "as_fee h = \<lparr>block_height = h, tx_id = ''tx'', address = None\<rparr>"

definition deploy_ordi :: Brc20Deploy where
  "deploy_ordi = \<lparr>deploy_tick = ''ordi'', deploy_max = ''21000000'',
     deploy_lim = Some ''1000'', deploy_dec = None\<rparr>"

definition deploy_pepe :: Brc20Deploy where
  "deploy_pepe = \<lparr>deploy_tick = ''pepe'', deploy_max = ''100'',
     deploy_lim = None, deploy_dec = Some ''2''\<rparr>"

definition mint_of :: "string \<Rightarrow> string \<Rightarrow> Brc20Mint" where
  "mint_of tk a = \<lparr>mint_tick = tk, mint_amt = a\<rparr>"

definition transfer_of :: "string \<Rightarrow> string \<Rightarrow> Brc20Transfer" where
  "transfer_of tk a = \<lparr>transfer_tick = tk, transfer_amt = a\<rparr>"

definition two_tokens :: db where
  "two_tokens = run lower_latin1 True empty_db
     [GenesisEvent 1 (Some (Deploy deploy_ordi)) (at_A 100),
      GenesisEvent 2 (Some (Mint (mint_of ''ordi'' ''500''))) (at_A 101),
      GenesisEvent 3 (Some (Deploy deploy_pepe)) (at_B 102)]"

definition ordi_row :: DbBrc20Deploy where
  "ordi_row = \<lparr>d_id = 1, d_inscription_id = 1, d_block_height = 100, d_tx_id = ''tx'',
     d_address = ''A'', d_ticker = ''ordi'', d_max = 21000000, d_limit = Some 1000,
     d_decimals = 18\<rparr>"

definition pepe_row :: DbBrc20Deploy where
  "pepe_row = \<lparr>d_id = 2, d_inscription_id = 3, d_block_height = 102, d_tx_id = ''tx'',
     d_address = ''B'', d_ticker = ''pepe'', d_max = 100, d_limit = None,
     d_decimals = 2\<rparr>"

definition pepe_first :: DbBrc20Deploy where
  "pepe_first = \<lparr>d_id = 1, d_inscription_id = 1, d_block_height = 100, d_tx_id = ''tx'',
     d_address = ''A'', d_ticker = ''pepe'', d_max = 100, d_limit = None,
     d_decimals = 2\<rparr>"

definition pepe_80 :: db where
  "pepe_80 = run lower_latin1 False empty_db
     [GenesisEvent 1 (Some (Deploy deploy_pepe)) (at_A 100),
      GenesisEvent 2 (Some (Mint (mint_of ''pepe'' ''80''))) (at_A 101)]"

definition pepe_full :: db where
  "pepe_full = run lower_latin1 False empty_db
     [GenesisEvent 1 (Some (Deploy deploy_pepe)) (at_A 100),
      GenesisEvent 2 (Some (Mint (mint_of ''pepe'' ''80''))) (at_A 101),
      GenesisEvent 3 (Some (Mint (mint_of ''pepe'' ''50''))) (at_B 102)]"

definition deploy_ORDI :: Brc20Deploy where
  "deploy_ORDI = \<lparr>deploy_tick = ''ORDI'', deploy_max = ''5'',
     deploy_lim = None, deploy_dec = None\<rparr>"

definition ordi_only :: db where
  "ordi_only = run lower_latin1 False empty_db [GenesisEvent 1 (Some (Deploy deploy_ordi)) (at_A 100)]"

definition twelve :: "nat signal list" where
  "twelve = map BlockOffered [0..<12]"

definition ordi_minted :: db where
  "ordi_minted = run lower_latin1 False empty_db
     [GenesisEvent 1 (Some (Deploy deploy_ordi)) (at_A 100),
      GenesisEvent 2 (Some (Mint (mint_of ''ordi'' ''500''))) (at_A 101)]"


definition deploy_event :: DbBrc20EventInsert where
  "deploy_event = \<lparr>e_inscription_id = 1, e_brc20_deploy_id = 1, e_deploy_id = Some 1,
     e_mint_id = None, e_transfer_id = None\<rparr>"

definition reserved :: db where
  "reserved = run lower_latin1 False empty_db
     [GenesisEvent 1 (Some (Deploy deploy_ordi)) (at_A 100),
      GenesisEvent 2 (Some (Mint (mint_of ''ordi'' ''1000''))) (at_A 101),
      GenesisEvent 3 (Some (Transfer (transfer_of ''ordi'' ''300''))) (at_A 102)]"

definition reserve_row :: DbBrc20Transfer where
  "reserve_row = \<lparr>t_id = 1, t_inscription_id = 3, t_brc20_deploy_id = 1, t_block_height = 102,
     t_tx_id = ''tx'', t_from_address = ''A'', t_to_address = None, t_amount = 300\<rparr>"

definition settled :: db where
  "settled = run lower_latin1 False empty_db
     [GenesisEvent 1 (Some (Deploy deploy_ordi)) (at_A 100),
      GenesisEvent 2 (Some (Mint (mint_of ''ordi'' ''1000''))) (at_A 101),
      GenesisEvent 3 (Some (Transfer (transfer_of ''ordi'' ''300''))) (at_A 102),
      TransferEvent 3 (at_B 104)]"

definition tick_EE :: string where
  "tick_EE = [CHR 0xC3, CHR 0x89, CHR 0xC3, CHR 0x89]"

definition tick_ee :: string where
  "tick_ee = [CHR 0xC3, CHR 0xA9, CHR 0xC3, CHR 0xA9]"

definition deploy_EE :: Brc20Deploy where
  "deploy_EE = \<lparr>deploy_tick = tick_EE, deploy_max = ''7'',
     deploy_lim = None, deploy_dec = None\<rparr>"

definition deploy_ee :: Brc20Deploy where
  "deploy_ee = \<lparr>deploy_tick = tick_ee, deploy_max = ''9'',
     deploy_lim = None, deploy_dec = None\<rparr>"

definition EE_row :: DbBrc20Deploy where
  "EE_row = \<lparr>d_id = 1, d_inscription_id = 1, d_block_height = 100, d_tx_id = ''tx'',
     d_address = ''A'', d_ticker = tick_EE, d_max = 7, d_limit = None,
     d_decimals = 18\<rparr>"

definition EE_only :: db where
  "EE_only = run lower_latin1 False empty_db
     [GenesisEvent 1 (Some (Deploy deploy_EE)) (at_A 100)]"

section \<open>Amount strings\<close>

lemma str_split_nonempty: "str_split sep s \<noteq> []"
  by (induction s) (auto split: list.splits)

lemma str_split_first: "str_split sep s ! 0 = takeWhile (\<lambda>c. c \<noteq> sep) s"
proof (induction s)
  case Nil
  then show ?case by simp
next
  case (Cons c cs)
  then show ?case
    by (cases "str_split sep cs") (auto simp: str_split_nonempty)
qed

lemma str_split_second:
  "sep \<in> set s \<Longrightarrow>
   str_split sep s ! 1 = takeWhile (\<lambda>c. c \<noteq> sep) (drop 1 (dropWhile (\<lambda>c. c \<noteq> sep) s))"
proof (induction s)
  case Nil
  then show ?case by simp
next
  case (Cons c cs)
  show ?case
  proof (cases "c = sep")
    case True
    then show ?thesis using str_split_first [of sep cs] by simp
  next
    case False
    with Cons.prems have "sep \<in> set cs" by simp
    with Cons.IH False show ?thesis
      by (cases "str_split sep cs") (auto simp: str_split_nonempty)
  qed
qed

lemma isDigit_not_point: "isDigit c \<Longrightarrow> c \<noteq> CHR ''.''"
  by (auto simp: isDigit_def)

lemma takeWhile_digits: "list_all isDigit ds \<Longrightarrow> takeWhile (\<lambda>c. c \<noteq> CHR ''.'') ds = ds"
  by (induction ds) (auto simp: isDigit_not_point)

lemma BigNumber_fraction:
  assumes "BigNumber str = Some a" and "str_includes str CHR ''.''"
  shows "length (str_split CHR ''.'' str ! 1) = fractionDigits str"
proof -
  let ?fp = "drop 1 (dropWhile (\<lambda>c. c \<noteq> CHR ''.'') str)"
  from assms(1) have "list_all isDigit ?fp"
    by (simp add: BigNumber_def Let_def split: if_splits)
  then have whole: "takeWhile (\<lambda>c. c \<noteq> CHR ''.'') ?fp = ?fp"
    by (rule takeWhile_digits)
  from assms(2) have "str_split CHR ''.'' str ! 1 = takeWhile (\<lambda>c. c \<noteq> CHR ''.'') ?fp"
    unfolding str_includes_def by (rule str_split_second)
  also note whole
  finally show ?thesis
    unfolding fractionDigits_def by (rule arg_cong)
qed

lemma fractionDigits_pos:
  assumes "0 < fractionDigits str"
  shows "str_includes str CHR ''.''"
proof (rule ccontr)
  assume "\<not> str_includes str CHR ''.''"
  then have "dropWhile (\<lambda>c. c \<noteq> CHR ''.'') str = []"
    by (auto simp: str_includes_def)
  with assms show False
    by (simp add: fractionDigits_def)
qed



section \<open>What a write leaves behind\<close>

lemma insertDeploy_effect:
  assumes "insertDeploy lower s deploy i location = Inr s'"
  shows "s' = s \<or>
    (\<exists>addr mx lm dc.
       \<not> list_ex (\<lambda>d. lower (d_ticker d) = lower (deploy_tick deploy)) (brc20_deploys s) \<and>
       address location = Some addr \<and> addr \<noteq> [] \<and>
       BigNumber (deploy_max deploy) = Some mx \<and>
       numericOrNull (deploy_lim deploy) = Some lm \<and>
       parseInt (case deploy_dec deploy of None \<Rightarrow> ''18'' | Some d \<Rightarrow> d) = Some dc \<and>
       s' = s\<lparr>brc20_deploys := brc20_deploys s @
               [\<lparr>d_id = Suc (length (brc20_deploys s)), d_inscription_id = i,
                 d_block_height = block_height location, d_tx_id = tx_id location,
                 d_address = addr, d_ticker = deploy_tick deploy, d_max = mx, d_limit = lm,
                 d_decimals = dc\<rparr>],
             brc20_events := brc20_events s @
               [\<lparr>e_inscription_id = i, e_brc20_deploy_id = Suc (length (brc20_deploys s)),
                 e_deploy_id = Some (Suc (length (brc20_deploys s))), e_mint_id = None,
                 e_transfer_id = None\<rparr>]\<rparr>)"
  using assms
  by (auto simp: insertDeploy_def Let_def split: option.splits if_splits)

lemma insertMint_effect:
  assumes "insertMint lower nn s mint i location = Inr s'"
  shows "s' = s \<or>
    (\<exists>token amt.
       getDeploy lower s (mint_tick mint) = Some token \<and>
       BigNumber (mint_amt mint) = Some amt \<and>
       0 < d_max token - mintedSupply s (d_id token) \<and>
       s' = s\<lparr>brc20_mints := brc20_mints s @
               [\<lparr>m_inscription_id = i, m_brc20_deploy_id = d_id token,
                 m_block_height = block_height location, m_tx_id = tx_id location,
                 m_address = address location, m_amount = amt\<rparr>],
             brc20_balances := brc20_balances s @
               [\<lparr>b_inscription_id = i, b_brc20_deploy_id = d_id token,
                 b_block_height = block_height location, b_address = address location,
                 b_avail_balance = min (d_max token - mintedSupply s (d_id token)) amt,
                 b_trans_balance = 0\<rparr>]\<rparr>)"
  using assms
  by (auto simp: insertMint_def insertBalances_def Let_def split: option.splits if_splits)

lemma insertTransfer_effect:
  assumes "insertTransfer lower nn s transfer i location = Inr s'"
  shows "s' = s \<or>
    (\<exists>token amt addr.
       getDeploy lower s (transfer_tick transfer) = Some token \<and>
       BigNumber (transfer_amt transfer) = Some amt \<and>
       address location = Some addr \<and>
       s' = s\<lparr>brc20_transfers := brc20_transfers s @
               [\<lparr>t_id = Suc (length (brc20_transfers s)), t_inscription_id = i,
                 t_brc20_deploy_id = d_id token, t_block_height = block_height location,
                 t_tx_id = tx_id location, t_from_address = addr, t_to_address = None,
                 t_amount = amt\<rparr>],
             brc20_balances := brc20_balances s @
               [\<lparr>b_inscription_id = i, b_brc20_deploy_id = d_id token,
                 b_block_height = block_height location, b_address = Some addr,
                 b_avail_balance = - amt, b_trans_balance = amt\<rparr>]\<rparr>)"
  using assms
  by (auto simp: insertTransfer_def insertBalances_def Let_def split: option.splits if_splits)

lemma applyBalanceTransfer_effect:
  assumes "applyBalanceTransfer nn s transfer location = Inr s'"
  shows "s' = s\<lparr>brc20_balances := brc20_balances s @
               [\<lparr>b_inscription_id = t_inscription_id transfer,
                 b_brc20_deploy_id = t_brc20_deploy_id transfer,
                 b_block_height = block_height location,
                 b_address = Some (t_from_address transfer),
                 b_avail_balance = 0, b_trans_balance = - t_amount transfer\<rparr>,
                \<lparr>b_inscription_id = t_inscription_id transfer,
                 b_brc20_deploy_id = t_brc20_deploy_id transfer,
                 b_block_height = block_height location,
                 b_address = address location,
                 b_avail_balance = t_amount transfer, b_trans_balance = 0\<rparr>],
             brc20_transfers :=
               map (\<lambda>t. if t_id t = t_id transfer
                        then t\<lparr>t_to_address := address location\<rparr> else t)
                 (brc20_transfers s)\<rparr>"
  using assms
  by (auto simp: applyBalanceTransfer_def insertBalances_def Let_def split: option.splits if_splits)


section \<open>The invariant of the ledger\<close>

lemma getDeploy_in: "getDeploy lower s tk = Some d \<Longrightarrow> d \<in> set (brc20_deploys s)"
  by (auto simp: getDeploy_def find_Some_iff)

lemma getDeploy_ticker:
  "getDeploy lower s tk = Some d \<Longrightarrow> lower (d_ticker d) = lower tk"
  by (auto simp: getDeploy_def find_Some_iff)

lemma inv_id_le:
  assumes "ledger_inv lower s" and "d \<in> set (brc20_deploys s)"
  shows "d_id d \<le> length (brc20_deploys s)"
proof -
  from assms(2) have "d_id d \<in> set (map d_id (brc20_deploys s))" by simp
  also from assms(1) have "map d_id (brc20_deploys s) = map Suc [0..<length (brc20_deploys s)]"
    by (simp add: ledger_inv_def)
  finally show ?thesis by auto
qed

lemma inv_id_inj:
  assumes "ledger_inv lower s" and "d \<in> set (brc20_deploys s)" and "d' \<in> set (brc20_deploys s)"
    and "d_id d = d_id d'"
  shows "d = d'"
proof -
  from assms(1) have "map d_id (brc20_deploys s) = map Suc [0..<length (brc20_deploys s)]"
    by (simp add: ledger_inv_def)
  moreover have "distinct (map Suc [0..<length (brc20_deploys s)])"
    by (simp add: distinct_map)
  ultimately have "distinct (map d_id (brc20_deploys s))" by simp
  then have "inj_on d_id (set (brc20_deploys s))"
    by (simp add: distinct_map)
  with assms(2-4) show ?thesis by (auto dest: inj_onD)
qed

lemma no_rows_sum:
  assumes "\<forall>x \<in> set xs. key x \<le> n"
  shows "filter (\<lambda>x. key x = Suc n) xs = []"
  using assms by (auto simp: filter_empty_conv)

lemma ledger_inv_empty: "ledger_inv lower empty_db"
  by (simp add: ledger_inv_def empty_db_def)

lemma ledger_inv_insertLocation: "ledger_inv lower (insertLocation s i location) = ledger_inv lower s"
  by (simp add: ledger_inv_def insertLocation_def mintedSupply_def creditedSupply_def
      tokenBalances_def)

lemma ledger_inv_insertDeploy:
  assumes inv: "ledger_inv lower s" and res: "insertDeploy lower s deploy i location = Inr s'"
  shows "ledger_inv lower s'"
proof -
  from insertDeploy_effect [OF res] show ?thesis
  proof (elim disjE exE conjE)
    assume "s' = s"
    with inv show ?thesis by simp
  next
    fix addr mx lm dc
    let ?n = "length (brc20_deploys s)"
    let ?row = "\<lparr>d_id = Suc ?n, d_inscription_id = i,
                 d_block_height = block_height location, d_tx_id = tx_id location,
                 d_address = addr, d_ticker = deploy_tick deploy, d_max = mx, d_limit = lm,
                 d_decimals = dc\<rparr>"
    assume fresh: "\<not> list_ex (\<lambda>d. lower (d_ticker d) = lower (deploy_tick deploy))
        (brc20_deploys s)"
      and sdef: "s' = s\<lparr>brc20_deploys := brc20_deploys s @ [?row],
             brc20_events := brc20_events s @
               [\<lparr>e_inscription_id = i, e_brc20_deploy_id = Suc ?n,
                 e_deploy_id = Some (Suc ?n), e_mint_id = None,
                 e_transfer_id = None\<rparr>]\<rparr>"
    have deploys: "brc20_deploys s' = brc20_deploys s @ [?row]"
      and mints: "brc20_mints s' = brc20_mints s"
      and transfers: "brc20_transfers s' = brc20_transfers s"
      and balances: "brc20_balances s' = brc20_balances s"
      by (simp_all add: sdef)
    have minted: "mintedSupply s' j = mintedSupply s j" for j
      by (simp add: mintedSupply_def mints)
    have credited: "creditedSupply s' j = creditedSupply s j" for j
      by (simp add: creditedSupply_def tokenBalances_def balances)
    from inv have "filter (\<lambda>m. m_brc20_deploy_id m = Suc ?n) (brc20_mints s) = []"
      by (intro no_rows_sum) (simp add: ledger_inv_def)
    then have m0: "mintedSupply s (Suc ?n) = 0"
      by (simp add: mintedSupply_def)
    from inv have "filter (\<lambda>b. b_brc20_deploy_id b = Suc ?n) (brc20_balances s) = []"
      by (intro no_rows_sum) (simp add: ledger_inv_def)
    then have c0: "creditedSupply s (Suc ?n) = 0"
      by (simp add: creditedSupply_def tokenBalances_def)
    have ids: "map d_id (brc20_deploys s') = map Suc [0..<length (brc20_deploys s')]"
      using inv by (simp add: ledger_inv_def deploys)
    have tickers: "distinct (map (\<lambda>d. lower (d_ticker d)) (brc20_deploys s'))"
      using inv fresh by (auto simp: ledger_inv_def deploys list_ex_iff)
    have refs: "(\<forall>m \<in> set (brc20_mints s'). m_brc20_deploy_id m \<le> length (brc20_deploys s'))"
      "(\<forall>t \<in> set (brc20_transfers s'). t_brc20_deploy_id t \<le> length (brc20_deploys s'))"
      "(\<forall>b \<in> set (brc20_balances s'). b_brc20_deploy_id b \<le> length (brc20_deploys s'))"
      using inv by (auto simp: ledger_inv_def deploys mints transfers balances le_SucI)
    have supp: "\<forall>d \<in> set (brc20_deploys s').
         mintedSupply s' (d_id d) = creditedSupply s' (d_id d) \<or>
         (creditedSupply s' (d_id d) = d_max d \<and> d_max d \<le> mintedSupply s' (d_id d))"
      using inv by (auto simp: ledger_inv_def deploys minted credited m0 c0)
    from ids tickers refs supp show ?thesis
      by (simp add: ledger_inv_def)
  qed
qed


lemma ledger_inv_insertMint:
  assumes inv: "ledger_inv lower s" and res: "insertMint lower nn s mint i location = Inr s'"
  shows "ledger_inv lower s'"
proof -
  from insertMint_effect [OF res] show ?thesis
  proof (elim disjE exE conjE)
    assume "s' = s"
    with inv show ?thesis by simp
  next
    fix token :: DbBrc20Deploy and amt
    let ?avail = "d_max token - mintedSupply s (d_id token)"
    assume tok: "getDeploy lower s (mint_tick mint) = Some token"
      and room: "0 < ?avail"
      and sdef: "s' = s\<lparr>brc20_mints := brc20_mints s @
               [\<lparr>m_inscription_id = i, m_brc20_deploy_id = d_id token,
                 m_block_height = block_height location, m_tx_id = tx_id location,
                 m_address = address location, m_amount = amt\<rparr>],
             brc20_balances := brc20_balances s @
               [\<lparr>b_inscription_id = i, b_brc20_deploy_id = d_id token,
                 b_block_height = block_height location, b_address = address location,
                 b_avail_balance = min ?avail amt,
                 b_trans_balance = 0\<rparr>]\<rparr>"
    from tok have mem: "token \<in> set (brc20_deploys s)" by (rule getDeploy_in)
    with inv have le: "d_id token \<le> length (brc20_deploys s)" by (rule inv_id_le)
    have deploys: "brc20_deploys s' = brc20_deploys s"
      and transfers: "brc20_transfers s' = brc20_transfers s"
      by (simp_all add: sdef)
    have minted: "mintedSupply s' j = mintedSupply s j + (if d_id token = j then amt else 0)" for j
      by (simp add: mintedSupply_def sdef)
    have credited: "creditedSupply s' j =
        creditedSupply s j + (if d_id token = j then min ?avail amt else 0)" for j
      by (simp add: creditedSupply_def tokenBalances_def sdef)
    have ids: "map d_id (brc20_deploys s') = map Suc [0..<length (brc20_deploys s')]"
      using inv by (simp add: ledger_inv_def deploys)
    have tickers: "distinct (map (\<lambda>d. lower (d_ticker d)) (brc20_deploys s'))"
      using inv by (simp add: ledger_inv_def deploys)
    have refs: "(\<forall>m \<in> set (brc20_mints s'). m_brc20_deploy_id m \<le> length (brc20_deploys s'))"
      "(\<forall>t \<in> set (brc20_transfers s'). t_brc20_deploy_id t \<le> length (brc20_deploys s'))"
      "(\<forall>b \<in> set (brc20_balances s'). b_brc20_deploy_id b \<le> length (brc20_deploys s'))"
      using inv le by (auto simp: ledger_inv_def sdef)
    have supp: "mintedSupply s' (d_id d) = creditedSupply s' (d_id d) \<or>
         (creditedSupply s' (d_id d) = d_max d \<and> d_max d \<le> mintedSupply s' (d_id d))"
      if d: "d \<in> set (brc20_deploys s)" for d
    proof (cases "d_id token = d_id d")
      case False
      with inv d show ?thesis
        by (simp add: ledger_inv_def minted credited)
    next
      case True
      with inv mem d have same: "d = token" by (intro inv_id_inj [of lower s]) simp_all
      from inv mem have "mintedSupply s (d_id token) = creditedSupply s (d_id token) \<or>
         (creditedSupply s (d_id token) = d_max token \<and> d_max token \<le> mintedSupply s (d_id token))"
        by (simp add: ledger_inv_def)
      with room have eq: "mintedSupply s (d_id token) = creditedSupply s (d_id token)"
        by auto
      show ?thesis
      proof (cases "amt \<le> ?avail")
        case True
        then have "min ?avail amt = amt" by simp
        with eq show ?thesis by (simp add: same minted credited)
      next
        case False
        then have "min ?avail amt = ?avail" by simp
        with eq False show ?thesis by (simp add: same minted credited)
      qed
    qed
    from ids tickers refs supp show ?thesis
      by (simp add: ledger_inv_def deploys)
  qed
qed

lemma ledger_inv_insertTransfer:
  assumes inv: "ledger_inv lower s" and res: "insertTransfer lower nn s transfer i location = Inr s'"
  shows "ledger_inv lower s'"
proof -
  from insertTransfer_effect [OF res] show ?thesis
  proof (elim disjE exE conjE)
    assume "s' = s"
    with inv show ?thesis by simp
  next
    fix token amt addr
    assume tok: "getDeploy lower s (transfer_tick transfer) = Some token"
      and sdef: "s' = s\<lparr>brc20_transfers := brc20_transfers s @
               [\<lparr>t_id = Suc (length (brc20_transfers s)), t_inscription_id = i,
                 t_brc20_deploy_id = d_id token, t_block_height = block_height location,
                 t_tx_id = tx_id location, t_from_address = addr, t_to_address = None,
                 t_amount = amt\<rparr>],
             brc20_balances := brc20_balances s @
               [\<lparr>b_inscription_id = i, b_brc20_deploy_id = d_id token,
                 b_block_height = block_height location, b_address = Some addr,
                 b_avail_balance = - amt, b_trans_balance = amt\<rparr>]\<rparr>"
    from tok have "token \<in> set (brc20_deploys s)" by (rule getDeploy_in)
    with inv have le: "d_id token \<le> length (brc20_deploys s)" by (rule inv_id_le)
    have minted: "mintedSupply s' j = mintedSupply s j" for j
      by (simp add: mintedSupply_def sdef)
    have credited: "creditedSupply s' j = creditedSupply s j" for j
      by (simp add: creditedSupply_def tokenBalances_def sdef)
    have deploys: "brc20_deploys s' = brc20_deploys s"
      by (simp add: sdef)
    have refs: "(\<forall>m \<in> set (brc20_mints s'). m_brc20_deploy_id m \<le> length (brc20_deploys s'))"
      "(\<forall>t \<in> set (brc20_transfers s'). t_brc20_deploy_id t \<le> length (brc20_deploys s'))"
      "(\<forall>b \<in> set (brc20_balances s'). b_brc20_deploy_id b \<le> length (brc20_deploys s'))"
      using inv le by (auto simp: ledger_inv_def sdef)
    with inv show ?thesis
      by (simp add: ledger_inv_def deploys minted credited)
  qed
qed

lemma transferJoin_subset: "set (transferJoin s i) \<subseteq> set (brc20_transfers s)"
proof
  fix t
  assume "t \<in> set (transferJoin s i)"
  then have "t \<in> set (concat (map (\<lambda>l. filter (\<lambda>t. t_inscription_id t = l_inscription_id l)
                               (brc20_transfers s))
                       (filter (\<lambda>l. l_inscription_id l = i) (locations s))))"
    unfolding transferJoin_def by (rule in_set_takeD)
  then show "t \<in> set (brc20_transfers s)" by (auto split: if_splits)
qed

lemma ledger_inv_applyBalanceTransfer:
  assumes inv: "ledger_inv lower s" and mem: "transfer \<in> set (brc20_transfers s)"
    and res: "applyBalanceTransfer nn s transfer location = Inr s'"
  shows "ledger_inv lower s'"
proof -
  note sdef = applyBalanceTransfer_effect [OF res]
  from inv mem have le: "t_brc20_deploy_id transfer \<le> length (brc20_deploys s)"
    by (simp add: ledger_inv_def)
  have minted: "mintedSupply s' j = mintedSupply s j" for j
    by (subst sdef) (simp add: mintedSupply_def)
  have credited: "creditedSupply s' j = creditedSupply s j" for j
    by (subst sdef) (simp add: creditedSupply_def tokenBalances_def)
  have deploys: "brc20_deploys s' = brc20_deploys s"
    by (subst sdef) simp
  have mints: "brc20_mints s' = brc20_mints s"
    by (subst sdef) simp
  have transfers: "\<forall>t \<in> set (brc20_transfers s'). t_brc20_deploy_id t \<le> length (brc20_deploys s)"
    using inv by (subst sdef) (auto simp: ledger_inv_def)
  have balances: "\<forall>b \<in> set (brc20_balances s'). b_brc20_deploy_id b \<le> length (brc20_deploys s)"
    using inv le by (subst sdef) (auto simp: ledger_inv_def)
  from inv transfers balances show ?thesis
    by (simp add: ledger_inv_def deploys mints minted credited)
qed

lemma ledger_inv_insertOperationTransfer:
  assumes inv: "ledger_inv lower s" and res: "insertOperationTransfer nn s i location = Inr s'"
  shows "ledger_inv lower s'"
proof (cases "length (transferJoin s i) = 2")
  case False
  with res inv show ?thesis by (simp add: insertOperationTransfer_def)
next
  case True
  then have "transferJoin s i ! 0 \<in> set (transferJoin s i)" by simp
  with transferJoin_subset have mem: "transferJoin s i ! 0 \<in> set (brc20_transfers s)" by blast
  from res True have "applyBalanceTransfer nn s (transferJoin s i ! 0) location = Inr s'"
    by (simp add: insertOperationTransfer_def)
  with inv mem show ?thesis by (rule ledger_inv_applyBalanceTransfer)
qed

lemma ledger_inv_insertOperationGenesis:
  assumes inv: "ledger_inv lower s" and res: "insertOperationGenesis lower nn s i brc20 location = Inr s'"
  shows "ledger_inv lower s'"
proof (cases brc20)
  case None
  with res inv show ?thesis by (simp add: insertOperationGenesis_def)
next
  case (Some operation)
  show ?thesis
  proof (cases "truthy (address location)")
    case False
    with res inv Some show ?thesis by (simp add: insertOperationGenesis_def)
  next
    case True
    with res Some show ?thesis
      by (cases operation)
        (auto simp: insertOperationGenesis_def
          intro: ledger_inv_insertDeploy [OF inv] ledger_inv_insertMint [OF inv]
            ledger_inv_insertTransfer [OF inv])
  qed
qed

lemma ledger_inv_applyEvent:
  assumes "ledger_inv lower s" and "applyEvent lower nn s ev = Inr s'"
  shows "ledger_inv lower s'"
proof (cases ev)
  case (GenesisEvent i brc20 location)
  with assms show ?thesis
    by (auto simp: applyEvent_def ledger_inv_insertLocation
        intro: ledger_inv_insertOperationGenesis [of lower "insertLocation s i location"])
next
  case (TransferEvent i location)
  with assms show ?thesis
    by (auto simp: applyEvent_def ledger_inv_insertLocation
        intro: ledger_inv_insertOperationTransfer [of lower "insertLocation s i location"])
qed

lemma ledger_inv_commit:
  assumes "ledger_inv lower s"
  shows "ledger_inv lower (commit s (applyEvent lower nn s ev))"
proof (cases "applyEvent lower nn s ev")
  case (Inl e)
  with assms show ?thesis by (simp add: commit_def)
next
  case (Inr s')
  with assms ledger_inv_applyEvent [of lower s nn ev s'] show ?thesis by (simp add: commit_def)
qed

lemma ledger_inv_run: "ledger_inv lower s \<Longrightarrow> ledger_inv lower (run lower nn s evs)"
  by (induction evs arbitrary: s) (simp_all add: ledger_inv_commit)

section \<open>Tickers\<close>

lemma find_prefix: "find P xs = Some x \<Longrightarrow> find P (xs @ ys) = Some x"
  by (induction xs) (auto split: if_splits)

lemma deploys_insertOperationGenesis:
  assumes "insertOperationGenesis lower nn s i brc20 location = Inr s'"
  shows "\<exists>more. brc20_deploys s' = brc20_deploys s @ more"
proof (cases brc20)
  case None
  with assms show ?thesis by (simp add: insertOperationGenesis_def)
next
  case (Some operation)
  show ?thesis
  proof (cases "truthy (address location)")
    case False
    with assms Some show ?thesis by (simp add: insertOperationGenesis_def)
  next
    case True
    show ?thesis
    proof (cases operation)
      case (Deploy deploy)
      with assms Some True have "insertDeploy lower s deploy i location = Inr s'"
        by (simp add: insertOperationGenesis_def)
      from insertDeploy_effect [OF this] show ?thesis by auto
    next
      case (Mint mint)
      with assms Some True have "insertMint lower nn s mint i location = Inr s'"
        by (simp add: insertOperationGenesis_def)
      from insertMint_effect [OF this] show ?thesis by auto
    next
      case (Transfer transfer)
      with assms Some True have "insertTransfer lower nn s transfer i location = Inr s'"
        by (simp add: insertOperationGenesis_def)
      from insertTransfer_effect [OF this] show ?thesis by auto
    qed
  qed
qed

lemma deploys_insertOperationTransfer:
  assumes "insertOperationTransfer nn s i location = Inr s'"
  shows "brc20_deploys s' = brc20_deploys s"
proof (cases "length (transferJoin s i) = 2")
  case False
  with assms show ?thesis by (simp add: insertOperationTransfer_def)
next
  case True
  with assms have "applyBalanceTransfer nn s (transferJoin s i ! 0) location = Inr s'"
    by (simp add: insertOperationTransfer_def)
  from applyBalanceTransfer_effect [OF this] show ?thesis
    by (rule ssubst) simp
qed

lemma deploys_commit:
  "\<exists>more. brc20_deploys (commit s (applyEvent lower nn s ev)) = brc20_deploys s @ more"
proof (cases "applyEvent lower nn s ev")
  case (Inl e)
  then show ?thesis by (simp add: commit_def)
next
  case (Inr s')
  have "\<exists>more. brc20_deploys s' = brc20_deploys s @ more"
  proof (cases ev)
    case (GenesisEvent i brc20 location)
    with Inr have "insertOperationGenesis lower nn (insertLocation s i location) i brc20 location = Inr s'"
      by (simp add: applyEvent_def)
    from deploys_insertOperationGenesis [OF this] show ?thesis
      by (simp add: insertLocation_def)
  next
    case (TransferEvent i location)
    with Inr have "insertOperationTransfer nn (insertLocation s i location) i location = Inr s'"
      by (simp add: applyEvent_def)
    from deploys_insertOperationTransfer [OF this] show ?thesis
      by (simp add: insertLocation_def)
  qed
  with Inr show ?thesis by (simp add: commit_def)
qed

lemma getDeploy_commit:
  assumes "getDeploy lower s tk = Some d"
  shows "getDeploy lower (commit s (applyEvent lower nn s ev)) tk = Some d"
proof -
  from deploys_commit obtain more
    where "brc20_deploys (commit s (applyEvent lower nn s ev)) = brc20_deploys s @ more" by blast
  with assms show ?thesis
    by (simp add: getDeploy_def find_prefix)
qed

lemma getDeploy_run:
  "getDeploy lower s tk = Some d \<Longrightarrow> getDeploy lower (run lower nn s evs) tk = Some d"
  by (induction evs arbitrary: s) (simp_all add: getDeploy_commit)

lemma insertDeploy_collision:
  assumes "list_ex (\<lambda>d. lower (d_ticker d) = lower (deploy_tick deploy))
      (brc20_deploys s)"
  shows "commit s (insertDeploy lower s deploy i location) = s"
  using assms
  by (simp add: insertDeploy_def commit_def split: option.splits)

text \<open>
  C6. Tickers are unique without regard to case, and the first deploy wins, for the
  case fold of the platform (any \<open>lower\<close>): in every state the engine reaches the
  lowercased tickers of the deploys are distinct; a deploy whose lowercased ticker is
  already there leaves the store as it was; the deploy that a ticker finds stays the one
  it finds after any further events; \<^verbatim>\<open>insertDeploy\<close> writes its deploy event exactly when
  it created the row; and once a ticker finds a deploy, after any further events a deploy
  of any ticker that folds to the same is a no-op and that ticker finds the first deploy.
\<close>

theorem ticker_first_writer_wins:
  "distinct (map (\<lambda>d. lower (d_ticker d)) (brc20_deploys (run lower nn empty_db evs))) \<and>
   (list_ex (\<lambda>d. lower (d_ticker d) = lower (deploy_tick deploy)) (brc20_deploys s)
      \<longrightarrow> commit s (insertDeploy lower s deploy i location) = s) \<and>
   (getDeploy lower s tk = Some d \<longrightarrow> getDeploy lower (run lower nn s evs) tk = Some d) \<and>
   (insertDeploy lower s deploy i location = Inr s' \<longrightarrow>
      (brc20_events s' = brc20_events s \<and> brc20_deploys s' = brc20_deploys s) \<or>
      (\<exists>row. brc20_deploys s' = brc20_deploys s @ [row] \<and>
         d_ticker row = deploy_tick deploy \<and>
         brc20_events s' = brc20_events s @
           [\<lparr>e_inscription_id = i, e_brc20_deploy_id = d_id row,
             e_deploy_id = Some (d_id row), e_mint_id = None, e_transfer_id = None\<rparr>])) \<and>
   (getDeploy lower s tk = Some d \<and> lower (deploy_tick deploy) = lower tk \<longrightarrow>
      commit (run lower nn s evs) (insertDeploy lower (run lower nn s evs) deploy i location) =
        run lower nn s evs \<and>
      getDeploy lower (run lower nn s evs) (deploy_tick deploy) = Some d)"
proof (intro conjI impI)
  assume later: "getDeploy lower s tk = Some d \<and> lower (deploy_tick deploy) = lower tk"
  then have found: "getDeploy lower (run lower nn s evs) tk = Some d"
    by (simp add: getDeploy_run)
  with later show same: "getDeploy lower (run lower nn s evs) (deploy_tick deploy) = Some d"
    by (simp add: getDeploy_def)
  from found have "d \<in> set (brc20_deploys (run lower nn s evs))"
    and "lower (d_ticker d) = lower tk"
    by (rule getDeploy_in, rule getDeploy_ticker)
  with later have "list_ex (\<lambda>d. lower (d_ticker d) = lower (deploy_tick deploy))
      (brc20_deploys (run lower nn s evs))"
    by (auto simp: list_ex_iff)
  then show "commit (run lower nn s evs)
      (insertDeploy lower (run lower nn s evs) deploy i location) = run lower nn s evs"
    by (rule insertDeploy_collision)
next
  have "ledger_inv lower (run lower nn empty_db evs)"
    by (intro ledger_inv_run ledger_inv_empty)
  then show "distinct (map (\<lambda>d. lower (d_ticker d)) (brc20_deploys (run lower nn empty_db evs)))"
    by (simp add: ledger_inv_def)
next
  assume "list_ex (\<lambda>d. lower (d_ticker d) = lower (deploy_tick deploy))
      (brc20_deploys s)"
  then show "commit s (insertDeploy lower s deploy i location) = s"
    by (rule insertDeploy_collision)
next
  assume "getDeploy lower s tk = Some d"
  then show "getDeploy lower (run lower nn s evs) tk = Some d"
    by (rule getDeploy_run)
next
  assume "insertDeploy lower s deploy i location = Inr s'"
  from insertDeploy_effect [OF this]
  show "(brc20_events s' = brc20_events s \<and> brc20_deploys s' = brc20_deploys s) \<or>
      (\<exists>row. brc20_deploys s' = brc20_deploys s @ [row] \<and>
         d_ticker row = deploy_tick deploy \<and>
         brc20_events s' = brc20_events s @
           [\<lparr>e_inscription_id = i, e_brc20_deploy_id = d_id row,
             e_deploy_id = Some (d_id row), e_mint_id = None, e_transfer_id = None\<rparr>])"
    by auto
qed

theorem ticker_first_writer_wins_witness:
  "list_ex (\<lambda>d. lower_latin1 (d_ticker d) = lower_latin1 (deploy_tick deploy_ORDI))
     (brc20_deploys ordi_only) \<and>
   commit ordi_only (insertDeploy lower_latin1 ordi_only deploy_ORDI 2 (at_B 101)) = ordi_only \<and>
   getDeploy lower_latin1 ordi_only ''OrDi'' = Some ordi_row \<and>
   getDeploy lower_latin1 (run lower_latin1 False ordi_only [GenesisEvent 2 (Some (Deploy deploy_ORDI)) (at_B 101)])
     ''OrDi'' = Some ordi_row \<and>
   brc20_deploys (run lower_latin1 False empty_db
     [GenesisEvent 1 (Some (Deploy deploy_ordi)) (at_A 100),
      GenesisEvent 2 (Some (Deploy deploy_ORDI)) (at_B 101)]) = [ordi_row] \<and>
   insertDeploy lower_latin1 ordi_only deploy_pepe 3 (at_B 102) =
     Inr (ordi_only\<lparr>brc20_deploys := [ordi_row, pepe_row],
            brc20_events := brc20_events ordi_only @
              [\<lparr>e_inscription_id = 3, e_brc20_deploy_id = 2, e_deploy_id = Some 2,
                e_mint_id = None, e_transfer_id = None\<rparr>]\<rparr>) \<and>
   getDeploy lower_latin1 EE_only tick_EE = Some EE_row \<and>
   lower_latin1 (deploy_tick deploy_ee) = lower_latin1 tick_EE \<and>
   tick_ee \<noteq> tick_EE \<and>
   commit (run lower_latin1 False EE_only
            [GenesisEvent 2 (Some (Mint (mint_of tick_ee ''3''))) (at_B 101)])
       (insertDeploy lower_latin1
          (run lower_latin1 False EE_only
            [GenesisEvent 2 (Some (Mint (mint_of tick_ee ''3''))) (at_B 101)])
          deploy_ee 3 (at_B 102)) =
     run lower_latin1 False EE_only
       [GenesisEvent 2 (Some (Mint (mint_of tick_ee ''3''))) (at_B 101)] \<and>
   getDeploy lower_latin1
       (run lower_latin1 False EE_only
         [GenesisEvent 2 (Some (Mint (mint_of tick_ee ''3''))) (at_B 101)])
       (deploy_tick deploy_ee) = Some EE_row"
proof -
  have first: "getDeploy lower_latin1 EE_only tick_EE = Some EE_row"
    by code_simp
  have fold: "lower_latin1 (deploy_tick deploy_ee) = lower_latin1 tick_EE"
    by code_simp
  have differ: "tick_ee \<noteq> tick_EE"
    by code_simp
  note latin = ticker_first_writer_wins [of lower_latin1 False
      "[GenesisEvent 2 (Some (Mint (mint_of tick_ee ''3''))) (at_B 101)]" deploy_ee EE_only 3
      "at_B 102" tick_EE EE_row]
  from latin first fold
  have ignored: "commit (run lower_latin1 False EE_only
            [GenesisEvent 2 (Some (Mint (mint_of tick_ee ''3''))) (at_B 101)])
       (insertDeploy lower_latin1
          (run lower_latin1 False EE_only
            [GenesisEvent 2 (Some (Mint (mint_of tick_ee ''3''))) (at_B 101)])
          deploy_ee 3 (at_B 102)) =
     run lower_latin1 False EE_only
       [GenesisEvent 2 (Some (Mint (mint_of tick_ee ''3''))) (at_B 101)]"
    and still: "getDeploy lower_latin1
       (run lower_latin1 False EE_only
         [GenesisEvent 2 (Some (Mint (mint_of tick_ee ''3''))) (at_B 101)])
       (deploy_tick deploy_ee) = Some EE_row"
    by blast+
  have clash: "list_ex (\<lambda>d. lower_latin1 (d_ticker d) = lower_latin1 (deploy_tick deploy_ORDI))
     (brc20_deploys ordi_only)"
    by code_simp
  have found: "getDeploy lower_latin1 ordi_only ''OrDi'' = Some ordi_row"
    by code_simp
  have made: "insertDeploy lower_latin1 ordi_only deploy_pepe 3 (at_B 102) =
     Inr (ordi_only\<lparr>brc20_deploys := [ordi_row, pepe_row],
            brc20_events := brc20_events ordi_only @
              [\<lparr>e_inscription_id = 3, e_brc20_deploy_id = 2, e_deploy_id = Some 2,
                e_mint_id = None, e_transfer_id = None\<rparr>]\<rparr>)"
    by code_simp
  have both: "brc20_deploys (run lower_latin1 False empty_db
     [GenesisEvent 1 (Some (Deploy deploy_ordi)) (at_A 100),
      GenesisEvent 2 (Some (Deploy deploy_ORDI)) (at_B 101)]) = [ordi_row]"
    by code_simp
  note inst = ticker_first_writer_wins [of lower_latin1 False
      "[GenesisEvent 2 (Some (Deploy deploy_ORDI)) (at_B 101)]" deploy_ORDI ordi_only 2
      "at_B 101" "''OrDi''" ordi_row]
  from inst clash have noop: "commit ordi_only (insertDeploy lower_latin1 ordi_only deploy_ORDI 2 (at_B 101)) = ordi_only"
    by blast
  from inst found have kept: "getDeploy lower_latin1 (run lower_latin1 False ordi_only
      [GenesisEvent 2 (Some (Deploy deploy_ORDI)) (at_B 101)]) ''OrDi'' = Some ordi_row"
    by blast
  from clash noop found kept both made first fold differ ignored still show ?thesis
    by (intro conjI)
qed

section \<open>The remaining supply of a mint\<close>

text \<open>
  Only an accepted mint raises what a token has been credited, and by the amount it
  credits; deploys, reserves and settlements keep it.
\<close>

lemma creditedSupply_insertLocation:
  "creditedSupply (insertLocation s i location) j = creditedSupply s j"
  by (simp add: creditedSupply_def tokenBalances_def insertLocation_def)

lemma creditedSupply_applyEvent:
  assumes res: "applyEvent lower nn s ev = Inr s'"
  shows "creditedSupply s' j = creditedSupply s j \<or>
    (\<exists>i mint l row.
       ev = GenesisEvent i (Some (Mint mint)) l \<and>
       brc20_balances s' = brc20_balances s @ [row] \<and> b_trans_balance row = 0 \<and>
       creditedSupply s' j =
         creditedSupply s j + (if b_brc20_deploy_id row = j then b_avail_balance row else 0))"
proof (cases ev)
  case (TransferEvent i l)
  with res have op: "insertOperationTransfer nn (insertLocation s i l) i l = Inr s'"
    by (simp add: applyEvent_def)
  have "creditedSupply s' j = creditedSupply (insertLocation s i l) j"
  proof (cases "length (transferJoin (insertLocation s i l) i) = 2")
    case False
    with op show ?thesis by (simp add: insertOperationTransfer_def)
  next
    case True
    with op have "applyBalanceTransfer nn (insertLocation s i l)
        (transferJoin (insertLocation s i l) i ! 0) l = Inr s'"
      by (simp add: insertOperationTransfer_def)
    from applyBalanceTransfer_effect [OF this] show ?thesis
      by (rule ssubst) (simp add: creditedSupply_def tokenBalances_def)
  qed
  then have "creditedSupply s' j = creditedSupply s j"
    by (simp add: creditedSupply_insertLocation)
  then show ?thesis by (rule disjI1)
next
  case (GenesisEvent i brc20 l)
  let ?s1 = "insertLocation s i l"
  from GenesisEvent res have op: "insertOperationGenesis lower nn ?s1 i brc20 l = Inr s'"
    by (simp add: applyEvent_def)
  show ?thesis
  proof (cases brc20)
    case None
    with op have "s' = ?s1" by (simp add: insertOperationGenesis_def)
    then have "creditedSupply s' j = creditedSupply s j"
      by (simp add: creditedSupply_insertLocation)
    then show ?thesis by (rule disjI1)
  next
    case (Some operation)
    show ?thesis
    proof (cases "truthy (address l)")
      case False
      with op Some have "s' = ?s1" by (simp add: insertOperationGenesis_def)
      then have "creditedSupply s' j = creditedSupply s j"
        by (simp add: creditedSupply_insertLocation)
      then show ?thesis by (rule disjI1)
    next
      case True
      show ?thesis
      proof (cases operation)
        case (Deploy deploy)
        with op Some True have "insertDeploy lower ?s1 deploy i l = Inr s'"
          by (simp add: insertOperationGenesis_def)
        from insertDeploy_effect [OF this]
        have "creditedSupply s' j = creditedSupply ?s1 j"
          by (auto simp: creditedSupply_def tokenBalances_def)
        then have "creditedSupply s' j = creditedSupply s j"
          by (simp add: creditedSupply_insertLocation)
        then show ?thesis by (rule disjI1)
      next
        case (Transfer transfer)
        with op Some True have "insertTransfer lower nn ?s1 transfer i l = Inr s'"
          by (simp add: insertOperationGenesis_def)
        from insertTransfer_effect [OF this]
        have "creditedSupply s' j = creditedSupply ?s1 j"
          by (auto simp: creditedSupply_def tokenBalances_def)
        then have "creditedSupply s' j = creditedSupply s j"
          by (simp add: creditedSupply_insertLocation)
        then show ?thesis by (rule disjI1)
      next
        case (Mint mint)
        with op Some True have "insertMint lower nn ?s1 mint i l = Inr s'"
          by (simp add: insertOperationGenesis_def)
        from insertMint_effect [OF this]
        have "creditedSupply s' j = creditedSupply ?s1 j \<or>
          (\<exists>row. brc20_balances s' = brc20_balances ?s1 @ [row] \<and> b_trans_balance row = 0 \<and>
             creditedSupply s' j =
               creditedSupply ?s1 j + (if b_brc20_deploy_id row = j then b_avail_balance row else 0))"
          by (auto simp: creditedSupply_def tokenBalances_def)
        then show ?thesis
        proof (elim disjE exE conjE)
          assume "creditedSupply s' j = creditedSupply ?s1 j"
          then have "creditedSupply s' j = creditedSupply s j"
            by (simp add: creditedSupply_insertLocation)
          then show ?thesis by (rule disjI1)
        next
          fix row
          assume rows: "brc20_balances s' = brc20_balances ?s1 @ [row]"
            and zero: "b_trans_balance row = 0"
            and sum: "creditedSupply s' j =
               creditedSupply ?s1 j + (if b_brc20_deploy_id row = j then b_avail_balance row else 0)"
          have same: "brc20_balances ?s1 = brc20_balances s"
            by (simp add: insertLocation_def)
          from GenesisEvent Some Mint rows zero sum show ?thesis
            by (intro disjI2 exI [of _ i] exI [of _ mint] exI [of _ l] exI [of _ row])
              (simp add: same creditedSupply_insertLocation)
        qed
      qed
    qed
  qed
qed

lemma supply_agree:
  assumes inv: "ledger_inv lower s" and mem: "token \<in> set (brc20_deploys s)"
  shows "(d_max token - mintedSupply s (d_id token) \<le> 0) =
         (d_max token - creditedSupply s (d_id token) \<le> 0)"
    and "0 < d_max token - mintedSupply s (d_id token) \<Longrightarrow>
         mintedSupply s (d_id token) = creditedSupply s (d_id token)"
proof -
  from inv mem have "mintedSupply s (d_id token) = creditedSupply s (d_id token) \<or>
     (creditedSupply s (d_id token) = d_max token \<and> d_max token \<le> mintedSupply s (d_id token))"
    by (simp add: ledger_inv_def)
  then show "(d_max token - mintedSupply s (d_id token) \<le> 0) =
         (d_max token - creditedSupply s (d_id token) \<le> 0)"
    and "0 < d_max token - mintedSupply s (d_id token) \<Longrightarrow>
         mintedSupply s (d_id token) = creditedSupply s (d_id token)"
    by auto
qed

lemma insertMint_exhausted:
  assumes "getDeploy lower s (mint_tick mint) = Some token"
    and "d_max token - mintedSupply s (d_id token) \<le> 0"
  shows "insertMint lower nn s mint i location = Inr s"
  using assms by (simp add: insertMint_def Let_def)

lemma decimals_check:
  assumes "BigNumber str = Some amt" and "fractionDigits str \<le> dc"
  shows "\<not> (str_includes str CHR ''.'' \<and> dc < length (str_split CHR ''.'' str ! 1))"
proof
  assume "str_includes str CHR ''.'' \<and> dc < length (str_split CHR ''.'' str ! 1)"
  moreover from this assms(1) have "length (str_split CHR ''.'' str ! 1) = fractionDigits str"
    by (intro BigNumber_fraction) simp_all
  ultimately show False using assms(2) by simp
qed

lemma limit_check:
  assumes "\<forall>lm. d_limit token = Some lm \<longrightarrow> amt \<le> lm"
  shows "\<not> (case d_limit token of None \<Rightarrow> False | Some lm \<Rightarrow> isGreaterThan (Some amt) lm)"
  using assms by (cases "d_limit token") (auto simp: isGreaterThan_def)

lemma insertMint_accepted:
  assumes tok: "getDeploy lower s (mint_tick mint) = Some token"
    and num: "BigNumber (mint_amt mint) = Some amt"
    and addr: "address location = Some addr"
    and lim: "\<forall>lm. d_limit token = Some lm \<longrightarrow> amt \<le> lm"
    and dec: "fractionDigits (mint_amt mint) \<le> d_decimals token"
    and room: "0 < d_max token - mintedSupply s (d_id token)"
  shows "insertMint lower nn s mint i location =
    Inr (s\<lparr>brc20_mints := brc20_mints s @
               [\<lparr>m_inscription_id = i, m_brc20_deploy_id = d_id token,
                 m_block_height = block_height location, m_tx_id = tx_id location,
                 m_address = Some addr, m_amount = amt\<rparr>],
             brc20_balances := brc20_balances s @
               [\<lparr>b_inscription_id = i, b_brc20_deploy_id = d_id token,
                 b_block_height = block_height location, b_address = Some addr,
                 b_avail_balance = min (d_max token - mintedSupply s (d_id token)) amt,
                 b_trans_balance = 0\<rparr>]\<rparr>)"
proof -
  note c1 = limit_check [OF lim] and c2 = decimals_check [OF num dec]
  from room have c3: "\<not> d_max token - mintedSupply s (d_id token) \<le> 0" by simp
  show ?thesis
    unfolding insertMint_def Let_def
    by (simp only: tok num option.case if_False c1 c2 c3 simp_thms)
      (simp add: insertBalances_def addr)
qed

text \<open>
  C1. In every state the engine reaches, a mint of a deployed token is decided by the
  remaining supply, the token's maximum minus what the token has been credited so far
  (\<open>creditedSupply\<close>: the balance deltas of the token, which only mints raise, each by
  its effective amount). When the remaining supply is not positive the mint is rejected
  and nothing is written; otherwise a mint that passes the limit and the decimals check
  is credited \<open>min remaining amt\<close>. The code subtracts the requested amounts of the
  mint rows instead; by the invariant of the ledger the two differences agree whenever
  either is positive, and both are not positive otherwise.
\<close>

theorem insertMint_remaining_supply:
  assumes reach: "s = run lower nn empty_db evs"
    and tok: "getDeploy lower s (mint_tick mint) = Some token"
    and rem: "remaining = d_max token - creditedSupply s (d_id token)"
  shows "(remaining \<le> 0 \<longrightarrow> insertMint lower nn s mint i location = Inr s) \<and>
    (0 < remaining \<longrightarrow>
      (\<forall>amt addr.
         BigNumber (mint_amt mint) = Some amt \<and> address location = Some addr \<and>
         (\<forall>lm. d_limit token = Some lm \<longrightarrow> amt \<le> lm) \<and>
         fractionDigits (mint_amt mint) \<le> d_decimals token \<longrightarrow>
         insertMint lower nn s mint i location =
           Inr (s\<lparr>brc20_mints := brc20_mints s @
                      [\<lparr>m_inscription_id = i, m_brc20_deploy_id = d_id token,
                        m_block_height = block_height location, m_tx_id = tx_id location,
                        m_address = Some addr, m_amount = amt\<rparr>],
                    brc20_balances := brc20_balances s @
                      [\<lparr>b_inscription_id = i, b_brc20_deploy_id = d_id token,
                        b_block_height = block_height location, b_address = Some addr,
                        b_avail_balance = min remaining amt,
                        b_trans_balance = 0\<rparr>]\<rparr>)))"
proof -
  have inv: "ledger_inv lower s"
    unfolding reach by (intro ledger_inv_run ledger_inv_empty)
  from tok have mem: "token \<in> set (brc20_deploys s)" by (rule getDeploy_in)
  note agree = supply_agree [OF inv mem]
  show ?thesis
  proof (intro conjI impI allI)
    assume "remaining \<le> 0"
    with agree(1) rem have "d_max token - mintedSupply s (d_id token) \<le> 0" by simp
    with tok show "insertMint lower nn s mint i location = Inr s" by (rule insertMint_exhausted)
  next
    fix amt addr
    assume pos: "0 < remaining"
      and hyp: "BigNumber (mint_amt mint) = Some amt \<and> address location = Some addr \<and>
         (\<forall>lm. d_limit token = Some lm \<longrightarrow> amt \<le> lm) \<and>
         fractionDigits (mint_amt mint) \<le> d_decimals token"
    have room: "0 < d_max token - mintedSupply s (d_id token)"
      using agree(1) pos rem by (simp add: not_le [symmetric])
    with agree(2) rem have eq: "d_max token - mintedSupply s (d_id token) = remaining" by simp
    from hyp room have "insertMint lower nn s mint i location =
      Inr (s\<lparr>brc20_mints := brc20_mints s @
               [\<lparr>m_inscription_id = i, m_brc20_deploy_id = d_id token,
                 m_block_height = block_height location, m_tx_id = tx_id location,
                 m_address = Some addr, m_amount = amt\<rparr>],
             brc20_balances := brc20_balances s @
               [\<lparr>b_inscription_id = i, b_brc20_deploy_id = d_id token,
                 b_block_height = block_height location, b_address = Some addr,
                 b_avail_balance = min (d_max token - mintedSupply s (d_id token)) amt,
                 b_trans_balance = 0\<rparr>]\<rparr>)"
      by (intro insertMint_accepted [OF tok]) simp_all
    then show "insertMint lower nn s mint i location =
           Inr (s\<lparr>brc20_mints := brc20_mints s @
                      [\<lparr>m_inscription_id = i, m_brc20_deploy_id = d_id token,
                        m_block_height = block_height location, m_tx_id = tx_id location,
                        m_address = Some addr, m_amount = amt\<rparr>],
                    brc20_balances := brc20_balances s @
                      [\<lparr>b_inscription_id = i, b_brc20_deploy_id = d_id token,
                        b_block_height = block_height location, b_address = Some addr,
                        b_avail_balance = min remaining amt,
                        b_trans_balance = 0\<rparr>]\<rparr>)"
      by (simp only: eq)
  qed
qed

theorem insertMint_remaining_supply_witness:
  "creditedSupply pepe_80 1 = 80 \<and>
   insertMint lower_latin1 False pepe_80 (mint_of ''pepe'' ''50'') 3 (at_B 102) =
     Inr (pepe_80\<lparr>brc20_mints := brc20_mints pepe_80 @
            [\<lparr>m_inscription_id = 3, m_brc20_deploy_id = 1, m_block_height = 102,
              m_tx_id = ''tx'', m_address = Some ''B'', m_amount = 50\<rparr>],
          brc20_balances := brc20_balances pepe_80 @
            [\<lparr>b_inscription_id = 3, b_brc20_deploy_id = 1, b_block_height = 102,
              b_address = Some ''B'', b_avail_balance = 20, b_trans_balance = 0\<rparr>]\<rparr>) \<and>
   creditedSupply pepe_full 1 = 100 \<and> mintedSupply pepe_full 1 = 130 \<and>
   insertMint lower_latin1 False pepe_full (mint_of ''pepe'' ''10'') 4 (at_A 103) = Inr pepe_full"
proof -
  have r80: "pepe_80 = run lower_latin1 False empty_db
     [GenesisEvent 1 (Some (Deploy deploy_pepe)) (at_A 100),
      GenesisEvent 2 (Some (Mint (mint_of ''pepe'' ''80''))) (at_A 101)]"
    by (simp add: pepe_80_def)
  have t80: "getDeploy lower_latin1 pepe_80 (mint_tick (mint_of ''pepe'' ''50'')) = Some pepe_first"
    by code_simp
  have c80: "creditedSupply pepe_80 1 = 80"
    by code_simp
  have rem80: "20 = d_max pepe_first - creditedSupply pepe_80 (d_id pepe_first)"
    by code_simp
  have num: "BigNumber (mint_amt (mint_of ''pepe'' ''50'')) = Some 50"
    by code_simp
  have digits: "fractionDigits (mint_amt (mint_of ''pepe'' ''50'')) = 0"
    by code_simp
  have addr: "address (at_B 102) = Some ''B''"
    by (simp add: at_B_def)
  have accepted: "insertMint lower_latin1 False pepe_80 (mint_of ''pepe'' ''50'') 3 (at_B 102) =
     Inr (pepe_80\<lparr>brc20_mints := brc20_mints pepe_80 @
            [\<lparr>m_inscription_id = 3, m_brc20_deploy_id = 1, m_block_height = 102,
              m_tx_id = ''tx'', m_address = Some ''B'', m_amount = 50\<rparr>],
          brc20_balances := brc20_balances pepe_80 @
            [\<lparr>b_inscription_id = 3, b_brc20_deploy_id = 1, b_block_height = 102,
              b_address = Some ''B'', b_avail_balance = 20, b_trans_balance = 0\<rparr>]\<rparr>)"
    using insertMint_remaining_supply [OF r80 t80 rem80, of 3 "at_B 102"] num digits addr
    by (simp add: pepe_first_def at_B_def)
  have rfull: "pepe_full = run lower_latin1 False empty_db
     [GenesisEvent 1 (Some (Deploy deploy_pepe)) (at_A 100),
      GenesisEvent 2 (Some (Mint (mint_of ''pepe'' ''80''))) (at_A 101),
      GenesisEvent 3 (Some (Mint (mint_of ''pepe'' ''50''))) (at_B 102)]"
    by (simp add: pepe_full_def)
  have tfull: "getDeploy lower_latin1 pepe_full (mint_tick (mint_of ''pepe'' ''10'')) = Some pepe_first"
    by code_simp
  have cfull: "creditedSupply pepe_full 1 = 100"
    by code_simp
  have mfull: "mintedSupply pepe_full 1 = 130"
    by code_simp
  have remfull: "0 = d_max pepe_first - creditedSupply pepe_full (d_id pepe_first)"
    by code_simp
  have rejected: "insertMint lower_latin1 False pepe_full (mint_of ''pepe'' ''10'') 4 (at_A 103) = Inr pepe_full"
    using insertMint_remaining_supply [OF rfull tfull remfull, of 4 "at_A 103"] by simp
  from c80 accepted cfull mfull rejected show ?thesis by simp
qed

section \<open>Mints that are turned away\<close>

text \<open>
  C7. A mint is rejected, and the store is left as it was, when the token is not
  deployed, when the token has a limit and the requested amount is strictly greater than
  it, or when the amount has more fractional digits than the token has decimals.
\<close>

theorem insertMint_rejected:
  assumes "getDeploy lower s (mint_tick mint) = None \<or>
     (\<exists>token lm a. getDeploy lower s (mint_tick mint) = Some token \<and> d_limit token = Some lm \<and>
        BigNumber (mint_amt mint) = Some a \<and> lm < a) \<or>
     (\<exists>token a. getDeploy lower s (mint_tick mint) = Some token \<and>
        BigNumber (mint_amt mint) = Some a \<and>
        d_decimals token < fractionDigits (mint_amt mint))"
  shows "insertMint lower nn s mint i location = Inr s"
  using assms
proof (elim disjE exE conjE)
  assume "getDeploy lower s (mint_tick mint) = None"
  then show ?thesis by (simp add: insertMint_def)
next
  fix token lm a
  assume "getDeploy lower s (mint_tick mint) = Some token" "d_limit token = Some lm"
    "BigNumber (mint_amt mint) = Some a" "lm < a"
  then show ?thesis by (simp add: insertMint_def isGreaterThan_def)
next
  fix token a
  assume tok: "getDeploy lower s (mint_tick mint) = Some token"
    and num: "BigNumber (mint_amt mint) = Some a"
    and dec: "d_decimals token < fractionDigits (mint_amt mint)"
  from dec have inc: "str_includes (mint_amt mint) CHR ''.''"
    by (intro fractionDigits_pos) simp
  with num have "length (str_split CHR ''.'' (mint_amt mint) ! 1) = fractionDigits (mint_amt mint)"
    by (rule BigNumber_fraction)
  with tok dec inc show ?thesis by (simp add: insertMint_def)
qed

theorem insertMint_rejected_witness:
  "getDeploy lower_latin1 two_tokens ''doge'' = None \<and>
   insertMint lower_latin1 False two_tokens (mint_of ''doge'' ''5'') 4 (at_A 103) = Inr two_tokens \<and>
   getDeploy lower_latin1 two_tokens ''ordi'' = Some ordi_row \<and> d_limit ordi_row = Some 1000 \<and>
   BigNumber ''2000'' = Some 2000 \<and>
   insertMint lower_latin1 False two_tokens (mint_of ''ordi'' ''2000'') 4 (at_A 103) = Inr two_tokens \<and>
   getDeploy lower_latin1 two_tokens ''pepe'' = Some pepe_row \<and> d_decimals pepe_row = 2 \<and>
   fractionDigits ''1.234'' = 3 \<and>
   insertMint lower_latin1 False two_tokens (mint_of ''pepe'' ''1.234'') 4 (at_A 103) = Inr two_tokens"
proof -
  have none: "getDeploy lower_latin1 two_tokens (mint_tick (mint_of ''doge'' ''5'')) = None"
    by code_simp
  have ordi: "getDeploy lower_latin1 two_tokens (mint_tick (mint_of ''ordi'' ''2000'')) = Some ordi_row"
    by code_simp
  have lim: "d_limit ordi_row = Some 1000"
    by (simp add: ordi_row_def)
  have big: "BigNumber (mint_amt (mint_of ''ordi'' ''2000'')) = Some 2000"
    by code_simp
  have pepe: "getDeploy lower_latin1 two_tokens (mint_tick (mint_of ''pepe'' ''1.234'')) = Some pepe_row"
    by code_simp
  have frac: "BigNumber (mint_amt (mint_of ''pepe'' ''1.234'')) = Some (1234 / 1000)"
    by code_simp
  have digits: "fractionDigits (mint_amt (mint_of ''pepe'' ''1.234'')) = 3"
    by code_simp
  have dec: "d_decimals pepe_row = 2"
    by (simp add: pepe_row_def)
  have r1: "insertMint lower_latin1 False two_tokens (mint_of ''doge'' ''5'') 4 (at_A 103) = Inr two_tokens"
    using none by (intro insertMint_rejected) simp
  have r2: "insertMint lower_latin1 False two_tokens (mint_of ''ordi'' ''2000'') 4 (at_A 103) = Inr two_tokens"
    using ordi lim big
    by (intro insertMint_rejected disjI2 disjI1 exI [of _ ordi_row] exI [of _ 1000]
          exI [of _ 2000]) simp
  have r3: "insertMint lower_latin1 False two_tokens (mint_of ''pepe'' ''1.234'') 4 (at_A 103) = Inr two_tokens"
    using pepe frac digits dec
    by (intro insertMint_rejected disjI2 exI [of _ pepe_row] exI [of _ "1234 / 1000"]) simp
  from none ordi lim big pepe dec digits r1 r2 r3 show ?thesis
    by (simp add: mint_of_def)
qed

section \<open>The supply query\<close>

text \<open>
  C10. For a token that is deployed and has no balance row yet (no mint has been
  accepted), \<^verbatim>\<open>getTokenSupply\<close> does not report a minted supply of zero: the grouped sum
  has no row, \<^verbatim>\<open>minted[0]\<close> is undefined, and the call fails with a \<^verbatim>\<open>TypeError\<close>.
\<close>

theorem getTokenSupply_fails:
  assumes "getDeploy lower s tk = Some deploy" and "tokenBalances s (d_id deploy) = []"
  shows "getTokenSupply lower s tk = Inl TypeError"
  using assms by (simp add: getTokenSupply_def mintedRows_def split: list.splits)

theorem getTokenSupply_fails_witness:
  "getDeploy lower_latin1 two_tokens ''PEPE'' = Some pepe_row \<and>
   tokenBalances two_tokens (d_id pepe_row) = [] \<and>
   getTokenSupply lower_latin1 two_tokens ''PEPE'' = Inl TypeError"
proof -
  have found: "getDeploy lower_latin1 two_tokens ''PEPE'' = Some pepe_row"
    by code_simp
  have no_rows: "tokenBalances two_tokens (d_id pepe_row) = []"
    by code_simp
  from getTokenSupply_fails [OF found no_rows] found no_rows show ?thesis
    by simp
qed

lemma supply_row:
  assumes inv: "ledger_inv lower s" and mem: "token \<in> set (brc20_deploys s)"
  shows "\<exists>rest. map d_max (filter (\<lambda>d. d_id d = d_id token) (brc20_deploys s)) = d_max token # rest"
proof -
  let ?rows = "filter (\<lambda>d. d_id d = d_id token) (brc20_deploys s)"
  from mem have "token \<in> set ?rows" by simp
  then obtain d rest where rows: "?rows = d # rest" by (cases ?rows) auto
  then have "d \<in> set ?rows" by simp
  then have "d \<in> set (brc20_deploys s)" and "d_id d = d_id token" by simp_all
  with inv mem have "d = token" by (intro inv_id_inj [of lower s]) simp_all
  with rows show ?thesis by simp
qed

text \<open>
  C8. The supply query on a deployed token, in every state the engine reaches: when the
  token has a balance row it returns the token's maximum, the minted supply (the sum of
  the available and transferable deltas of all addresses) and the number of distinct
  addresses whose deltas sum to more than zero; deploy then mint 500 gives
  \<open>(21000000, 500, 1)\<close>. When the token has no balance row the query does not return:
  it fails.
\<close>

theorem getTokenSupply_result:
  assumes reach: "s = run lower nn empty_db evs" and tok: "getDeploy lower s tk = Some token"
  shows "getTokenSupply lower s tk =
     (if tokenBalances s (d_id token) = [] then Inl TypeError
      else Inr (Some \<lparr>max_supply = d_max token,
                      minted_supply = creditedSupply s (d_id token),
                      holders = holdersCount s (d_id token)\<rparr>))"
proof -
  have inv: "ledger_inv lower s"
    unfolding reach by (intro ledger_inv_run ledger_inv_empty)
  from tok have mem: "token \<in> set (brc20_deploys s)" by (rule getDeploy_in)
  from supply_row [OF inv mem] obtain rest
    where "map d_max (filter (\<lambda>d. d_id d = d_id token) (brc20_deploys s)) = d_max token # rest" ..
  with tok show ?thesis
    by (simp add: getTokenSupply_def mintedRows_def creditedSupply_def)
qed

theorem getTokenSupply_result_witness:
  "getDeploy lower_latin1 ordi_minted ''ordi'' = Some ordi_row \<and>
   getTokenSupply lower_latin1 ordi_minted ''ordi'' =
     Inr (Some \<lparr>max_supply = 21000000, minted_supply = 500, holders = 1\<rparr>) \<and>
   getDeploy lower_latin1 ordi_only ''ordi'' = Some ordi_row \<and>
   tokenBalances ordi_only 1 = [] \<and>
   getTokenSupply lower_latin1 ordi_only ''ordi'' = Inl TypeError"
proof -
  have r1: "ordi_minted = run lower_latin1 False empty_db
     [GenesisEvent 1 (Some (Deploy deploy_ordi)) (at_A 100),
      GenesisEvent 2 (Some (Mint (mint_of ''ordi'' ''500''))) (at_A 101)]"
    by (simp add: ordi_minted_def)
  have t1: "getDeploy lower_latin1 ordi_minted ''ordi'' = Some ordi_row"
    by code_simp
  have rows1: "tokenBalances ordi_minted (d_id ordi_row) \<noteq> []"
    by code_simp
  have max1: "d_max ordi_row = 21000000"
    by (simp add: ordi_row_def)
  have credited1: "creditedSupply ordi_minted (d_id ordi_row) = 500"
    by code_simp
  have holders1: "holdersCount ordi_minted (d_id ordi_row) = 1"
    by code_simp
  from getTokenSupply_result [OF r1 t1] rows1 max1 credited1 holders1
  have a: "getTokenSupply lower_latin1 ordi_minted ''ordi'' =
     Inr (Some \<lparr>max_supply = 21000000, minted_supply = 500, holders = 1\<rparr>)"
    by simp
  have r2: "ordi_only = run lower_latin1 False empty_db [GenesisEvent 1 (Some (Deploy deploy_ordi)) (at_A 100)]"
    by (simp add: ordi_only_def)
  have t2: "getDeploy lower_latin1 ordi_only ''ordi'' = Some ordi_row"
    by code_simp
  have rows2: "tokenBalances ordi_only (d_id ordi_row) = []"
    by code_simp
  have rows2': "tokenBalances ordi_only 1 = []"
    by code_simp
  from getTokenSupply_result [OF r2 t2] rows2
  have b: "getTokenSupply lower_latin1 ordi_only ''ordi'' = Inl TypeError"
    by simp
  from t1 a t2 rows2' b show ?thesis by (intro conjI)
qed

section \<open>Accepted mints\<close>

text \<open>
  C5. A mint that is accepted (the call returns and the store has changed) appends one
  mint row, which records the requested amount, and one balance delta for the minting
  address, \<open>(+effective, 0)\<close> with the clamped amount. It writes no mint event: the
  event log is what it was.
\<close>

theorem insertMint_rows:
  assumes "insertMint lower nn s mint i location = Inr s'" and "s' \<noteq> s"
  shows "\<exists>token amt.
     getDeploy lower s (mint_tick mint) = Some token \<and> BigNumber (mint_amt mint) = Some amt \<and>
     brc20_mints s' = brc20_mints s @
       [\<lparr>m_inscription_id = i, m_brc20_deploy_id = d_id token,
         m_block_height = block_height location, m_tx_id = tx_id location,
         m_address = address location, m_amount = amt\<rparr>] \<and>
     brc20_balances s' = brc20_balances s @
       [\<lparr>b_inscription_id = i, b_brc20_deploy_id = d_id token,
         b_block_height = block_height location, b_address = address location,
         b_avail_balance = min (d_max token - mintedSupply s (d_id token)) amt,
         b_trans_balance = 0\<rparr>] \<and>
     brc20_events s' = brc20_events s"
  using insertMint_effect [OF assms(1)] assms(2) by auto

theorem insertMint_rows_witness:
  "insertMint lower_latin1 False (insertLocation pepe_80 3 (at_B 102)) (mint_of ''pepe'' ''50'') 3 (at_B 102)
     = Inr pepe_full \<and>
   pepe_full \<noteq> insertLocation pepe_80 3 (at_B 102) \<and>
   map m_amount (brc20_mints pepe_full) = [80, 50] \<and>
   map b_avail_balance (brc20_balances pepe_full) = [80, 20] \<and>
   brc20_events (insertLocation pepe_80 3 (at_B 102)) = [deploy_event] \<and>
   brc20_events pepe_full = [deploy_event]"
proof -
  have res: "insertMint lower_latin1 False (insertLocation pepe_80 3 (at_B 102)) (mint_of ''pepe'' ''50'') 3
      (at_B 102) = Inr pepe_full"
    by code_simp
  have changed: "pepe_full \<noteq> insertLocation pepe_80 3 (at_B 102)"
    by code_simp
  have mints: "map m_amount (brc20_mints pepe_full) = [80, 50]"
    by code_simp
  have balances: "map b_avail_balance (brc20_balances pepe_full) = [80, 20]"
    by code_simp
  have before: "brc20_events (insertLocation pepe_80 3 (at_B 102)) = [deploy_event]"
    by code_simp
  from insertMint_rows [OF res changed] before
  have after: "brc20_events pepe_full = [deploy_event]"
    by auto
  from res changed mints balances before after show ?thesis by (intro conjI)
qed

section \<open>Inscribe-transfer\<close>










section \<open>Settlement\<close>

lemma concat_constant:
  assumes "\<forall>l \<in> set ls. f l = ts"
  shows "concat (map f ls) = concat (replicate (length ls) ts)"
  using assms by (induction ls) simp_all

lemma transferJoin_rows:
  "transferJoin s i =
     take 3 (concat (replicate (locationCount s i)
       (filter (\<lambda>t. t_inscription_id t = i) (brc20_transfers s))))"
proof -
  have "concat (map (\<lambda>l. filter (\<lambda>t. t_inscription_id t = l_inscription_id l) (brc20_transfers s))
          (filter (\<lambda>l. l_inscription_id l = i) (locations s))) =
        concat (replicate (length (filter (\<lambda>l. l_inscription_id l = i) (locations s)))
          (filter (\<lambda>t. t_inscription_id t = i) (brc20_transfers s)))"
    by (rule concat_constant) simp
  then show ?thesis
    by (simp add: transferJoin_def locationCount_def)
qed

lemma transferJoin_length:
  "length (transferJoin s i) = min 3 (locationCount s i * transferCount s i)"
  by (simp add: transferJoin_rows transferCount_def length_concat sum_list_replicate min.commute)

text \<open>
  C3. A settlement, as the code performs it. When a reserved transfer inscription is
  moved (it has one transfer row and, with the move recorded, two location rows), the
  engine builds two balance deltas, \<open>(0, -amt)\<close> for the sender and \<open>(+amt, 0)\<close> for the
  address of the new location, and sets the \<^verbatim>\<open>to_address\<close> of the intent to that address.
  With an address present the recipient is credited \<open>(+amt, 0)\<close>. With no address (spent
  as fee) \<^verbatim>\<open>applyBalanceTransfer\<close> has no guard of the kind the other writes have: the
  amount is not burned and no sentinel is set, the credit delta is written with a null
  address and \<^verbatim>\<open>to_address\<close> stays null; where the store takes no null address in
  \<^verbatim>\<open>brc20_balances\<close> the call fails and nothing is settled.
\<close>

theorem settlement_rows:
  assumes one: "filter (\<lambda>t. t_inscription_id t = i) (brc20_transfers s) = [tr]"
    and two: "locationCount s i = 2"
  shows "insertOperationTransfer nn s i location =
     (if nn \<and> address location = None then Inl NotNullViolation
      else Inr (s\<lparr>brc20_balances := brc20_balances s @
                   [\<lparr>b_inscription_id = t_inscription_id tr,
                     b_brc20_deploy_id = t_brc20_deploy_id tr,
                     b_block_height = block_height location,
                     b_address = Some (t_from_address tr),
                     b_avail_balance = 0, b_trans_balance = - t_amount tr\<rparr>,
                    \<lparr>b_inscription_id = t_inscription_id tr,
                     b_brc20_deploy_id = t_brc20_deploy_id tr,
                     b_block_height = block_height location,
                     b_address = address location,
                     b_avail_balance = t_amount tr, b_trans_balance = 0\<rparr>],
                 brc20_transfers :=
                   map (\<lambda>t. if t_id t = t_id tr
                            then t\<lparr>t_to_address := address location\<rparr> else t)
                     (brc20_transfers s)\<rparr>))"
proof -
  have join: "transferJoin s i = [tr, tr]"
    by (simp add: transferJoin_rows one two numeral_2_eq_2)
  show ?thesis
    by (simp add: insertOperationTransfer_def join applyBalanceTransfer_def insertBalances_def
        Let_def)
qed


theorem settlement_rows_witness:
  "filter (\<lambda>t. t_inscription_id t = 3) (brc20_transfers (insertLocation reserved 3 (at_B 104)))
     = [reserve_row] \<and>
   locationCount (insertLocation reserved 3 (at_B 104)) 3 = 2 \<and>
   insertOperationTransfer True (insertLocation reserved 3 (at_B 104)) 3 (at_B 104) =
     Inr ((insertLocation reserved 3 (at_B 104))
       \<lparr>brc20_balances := brc20_balances reserved @
          [\<lparr>b_inscription_id = 3, b_brc20_deploy_id = 1, b_block_height = 104,
            b_address = Some ''A'', b_avail_balance = 0, b_trans_balance = - 300\<rparr>,
           \<lparr>b_inscription_id = 3, b_brc20_deploy_id = 1, b_block_height = 104,
            b_address = Some ''B'', b_avail_balance = 300, b_trans_balance = 0\<rparr>],
        brc20_transfers := [reserve_row\<lparr>t_to_address := Some ''B''\<rparr>]\<rparr>) \<and>
   insertOperationTransfer True (insertLocation reserved 3 (as_fee 104)) 3 (as_fee 104) =
     Inl NotNullViolation \<and>
   insertOperationTransfer False (insertLocation reserved 3 (as_fee 104)) 3 (as_fee 104) =
     Inr ((insertLocation reserved 3 (as_fee 104))
       \<lparr>brc20_balances := brc20_balances reserved @
          [\<lparr>b_inscription_id = 3, b_brc20_deploy_id = 1, b_block_height = 104,
            b_address = Some ''A'', b_avail_balance = 0, b_trans_balance = - 300\<rparr>,
           \<lparr>b_inscription_id = 3, b_brc20_deploy_id = 1, b_block_height = 104,
            b_address = None, b_avail_balance = 300, b_trans_balance = 0\<rparr>],
        brc20_transfers := [reserve_row]\<rparr>)"
proof -
  have oneB: "filter (\<lambda>t. t_inscription_id t = 3)
      (brc20_transfers (insertLocation reserved 3 (at_B 104))) = [reserve_row]"
    by code_simp
  have twoB: "locationCount (insertLocation reserved 3 (at_B 104)) 3 = 2"
    by code_simp
  have oneF: "filter (\<lambda>t. t_inscription_id t = 3)
      (brc20_transfers (insertLocation reserved 3 (as_fee 104))) = [reserve_row]"
    by code_simp
  have twoF: "locationCount (insertLocation reserved 3 (as_fee 104)) 3 = 2"
    by code_simp
  have rowsB: "brc20_transfers (insertLocation reserved 3 (at_B 104)) = [reserve_row]"
    "brc20_balances (insertLocation reserved 3 (at_B 104)) = brc20_balances reserved"
    by code_simp+
  have rowsF: "brc20_transfers (insertLocation reserved 3 (as_fee 104)) = [reserve_row]"
    "brc20_balances (insertLocation reserved 3 (as_fee 104)) = brc20_balances reserved"
    by code_simp+
  have locB: "block_height (at_B 104) = 104" "address (at_B 104) = Some ''B''"
    by (simp_all add: at_B_def)
  have locF: "block_height (as_fee 104) = 104" "address (as_fee 104) = None"
    by (simp_all add: as_fee_def)
  have a: "insertOperationTransfer True (insertLocation reserved 3 (at_B 104)) 3 (at_B 104) =
     Inr ((insertLocation reserved 3 (at_B 104))
       \<lparr>brc20_balances := brc20_balances reserved @
          [\<lparr>b_inscription_id = 3, b_brc20_deploy_id = 1, b_block_height = 104,
            b_address = Some ''A'', b_avail_balance = 0, b_trans_balance = - 300\<rparr>,
           \<lparr>b_inscription_id = 3, b_brc20_deploy_id = 1, b_block_height = 104,
            b_address = Some ''B'', b_avail_balance = 300, b_trans_balance = 0\<rparr>],
        brc20_transfers := [reserve_row\<lparr>t_to_address := Some ''B''\<rparr>]\<rparr>)"
    using settlement_rows [OF oneB twoB, of True "at_B 104"]
    by (simp add: rowsB locB reserve_row_def)
  have b: "insertOperationTransfer True (insertLocation reserved 3 (as_fee 104)) 3 (as_fee 104) =
     Inl NotNullViolation"
    using settlement_rows [OF oneF twoF, of True "as_fee 104"]
    by (simp add: locF)
  have c: "insertOperationTransfer False (insertLocation reserved 3 (as_fee 104)) 3 (as_fee 104) =
     Inr ((insertLocation reserved 3 (as_fee 104))
       \<lparr>brc20_balances := brc20_balances reserved @
          [\<lparr>b_inscription_id = 3, b_brc20_deploy_id = 1, b_block_height = 104,
            b_address = Some ''A'', b_avail_balance = 0, b_trans_balance = - 300\<rparr>,
           \<lparr>b_inscription_id = 3, b_brc20_deploy_id = 1, b_block_height = 104,
            b_address = None, b_avail_balance = 300, b_trans_balance = 0\<rparr>],
        brc20_transfers := [reserve_row]\<rparr>)"
    using settlement_rows [OF oneF twoF, of False "as_fee 104"]
    by (simp add: rowsF locF reserve_row_def)
  from oneB twoB a b c show ?thesis by (intro conjI)
qed

text \<open>
  The reserved inscription of the transfer scenario, spent as fee: the credit delta
  \<open>(+300, 0)\<close> is written with a null address, \<^verbatim>\<open>to_address\<close> is null as before and no
  event is added; and where null addresses are refused the move fails and leaves the
  store as it was.
\<close>

theorem fee_spend_counterexample:
  "brc20_balances (commit reserved (applyEvent lower_latin1 False reserved (TransferEvent 3 (as_fee 104)))) =
     brc20_balances reserved @
       [\<lparr>b_inscription_id = 3, b_brc20_deploy_id = 1, b_block_height = 104,
         b_address = Some ''A'', b_avail_balance = 0, b_trans_balance = - 300\<rparr>,
        \<lparr>b_inscription_id = 3, b_brc20_deploy_id = 1, b_block_height = 104,
         b_address = None, b_avail_balance = 300, b_trans_balance = 0\<rparr>] \<and>
   brc20_transfers (commit reserved (applyEvent lower_latin1 False reserved (TransferEvent 3 (as_fee 104)))) =
     brc20_transfers reserved \<and>
   brc20_transfers reserved = [reserve_row] \<and>
   brc20_events (commit reserved (applyEvent lower_latin1 False reserved (TransferEvent 3 (as_fee 104)))) =
     [deploy_event] \<and>
   applyEvent lower_latin1 True reserved (TransferEvent 3 (as_fee 104)) = Inl NotNullViolation \<and>
   commit reserved (applyEvent lower_latin1 True reserved (TransferEvent 3 (as_fee 104))) = reserved"
  by code_simp

section \<open>A transfer is settled once\<close>

lemma transferCount_ids:
  "transferCount s i = length (filter (\<lambda>j. j = i) (map t_inscription_id (brc20_transfers s)))"
  by (simp add: transferCount_def filter_map comp_def)

lemma insertOperationTransfer_frame:
  assumes "insertOperationTransfer nn s i location = Inr s'"
  shows "locations s' = locations s" and "brc20_events s' = brc20_events s"
    and "map t_inscription_id (brc20_transfers s') = map t_inscription_id (brc20_transfers s)"
proof -
  have "locations s' = locations s \<and> brc20_events s' = brc20_events s \<and>
    map t_inscription_id (brc20_transfers s') = map t_inscription_id (brc20_transfers s)"
  proof (cases "length (transferJoin s i) = 2")
    case False
    with assms show ?thesis by (simp add: insertOperationTransfer_def)
  next
    case True
    with assms have "applyBalanceTransfer nn s (transferJoin s i ! 0) location = Inr s'"
      by (simp add: insertOperationTransfer_def)
    from applyBalanceTransfer_effect [OF this] show ?thesis
      by (rule ssubst) (simp add: comp_def if_distrib cong: if_cong)
  qed
  then show "locations s' = locations s" and "brc20_events s' = brc20_events s"
    and "map t_inscription_id (brc20_transfers s') = map t_inscription_id (brc20_transfers s)"
    by simp_all
qed

lemma insertOperationGenesis_frame:
  assumes "insertOperationGenesis lower nn s i brc20 location = Inr s'"
  shows "locations s' = locations s"
    and "brc20_transfers s' = brc20_transfers s \<or>
         (\<exists>row. brc20_transfers s' = brc20_transfers s @ [row] \<and> t_inscription_id row = i)"
    and "brc20_events s' \<noteq> brc20_events s \<Longrightarrow> \<exists>deploy. brc20 = Some (Deploy deploy)"
proof -
  have "locations s' = locations s \<and>
    (brc20_transfers s' = brc20_transfers s \<or>
         (\<exists>row. brc20_transfers s' = brc20_transfers s @ [row] \<and> t_inscription_id row = i)) \<and>
    (brc20_events s' \<noteq> brc20_events s \<longrightarrow> (\<exists>deploy. brc20 = Some (Deploy deploy)))"
  proof (cases brc20)
    case None
    with assms show ?thesis by (simp add: insertOperationGenesis_def)
  next
    case (Some operation)
    show ?thesis
    proof (cases "truthy (address location)")
      case False
      with assms Some show ?thesis by (simp add: insertOperationGenesis_def)
    next
      case True
      show ?thesis
      proof (cases operation)
        case (Deploy deploy)
        with assms Some True have "insertDeploy lower s deploy i location = Inr s'"
          by (simp add: insertOperationGenesis_def)
        from insertDeploy_effect [OF this] Some Deploy show ?thesis by auto
      next
        case (Mint mint)
        with assms Some True have "insertMint lower nn s mint i location = Inr s'"
          by (simp add: insertOperationGenesis_def)
        from insertMint_effect [OF this] show ?thesis by auto
      next
        case (Transfer transfer)
        with assms Some True have "insertTransfer lower nn s transfer i location = Inr s'"
          by (simp add: insertOperationGenesis_def)
        from insertTransfer_effect [OF this] show ?thesis by auto
      qed
    qed
  qed
  then show "locations s' = locations s"
    and "brc20_transfers s' = brc20_transfers s \<or>
         (\<exists>row. brc20_transfers s' = brc20_transfers s @ [row] \<and> t_inscription_id row = i)"
    and "brc20_events s' \<noteq> brc20_events s \<Longrightarrow> \<exists>deploy. brc20 = Some (Deploy deploy)"
    by simp_all
qed

lemma locationCount_insertLocation:
  "locationCount (insertLocation s j location) i = locationCount s i + (if i = j then 1 else 0)"
  by (simp add: locationCount_def insertLocation_def)

lemma transferCount_insertLocation:
  "transferCount (insertLocation s j location) i = transferCount s i"
  by (simp add: transferCount_def insertLocation_def)

lemma counts_applyEvent:
  assumes res: "applyEvent lower nn s ev = Inr s'"
  shows "locationCount s i \<le> locationCount s' i"
    and "transferCount s i \<le> locationCount s i \<Longrightarrow> transferCount s' i \<le> locationCount s' i"
proof -
  have "locationCount s i \<le> locationCount s' i \<and>
    (transferCount s i \<le> locationCount s i \<longrightarrow> transferCount s' i \<le> locationCount s' i)"
  proof (cases ev)
    case (GenesisEvent j brc20 location)
    with res have op: "insertOperationGenesis lower nn (insertLocation s j location) j brc20 location = Inr s'"
      by (simp add: applyEvent_def)
    from insertOperationGenesis_frame(1) [OF op]
    have lc: "locationCount s' i = locationCount s i + (if i = j then 1 else 0)"
      by (simp add: locationCount_def insertLocation_def)
    from insertOperationGenesis_frame(2) [OF op]
    have "transferCount s' i \<le> transferCount s i + (if i = j then 1 else 0)"
      by (auto simp: transferCount_def insertLocation_def)
    with lc show ?thesis by auto
  next
    case (TransferEvent j location)
    with res have op: "insertOperationTransfer nn (insertLocation s j location) j location = Inr s'"
      by (simp add: applyEvent_def)
    from insertOperationTransfer_frame(1) [OF op]
    have lc: "locationCount s' i = locationCount s i + (if i = j then 1 else 0)"
      by (simp add: locationCount_def insertLocation_def)
    from insertOperationTransfer_frame(3) [OF op]
    have "transferCount s' i = transferCount s i"
      by (simp add: transferCount_ids insertLocation_def)
    with lc show ?thesis by auto
  qed
  then show "locationCount s i \<le> locationCount s' i"
    and "transferCount s i \<le> locationCount s i \<Longrightarrow> transferCount s' i \<le> locationCount s' i"
    by simp_all
qed

lemma counts_commit:
  "locationCount s i \<le> locationCount (commit s (applyEvent lower nn s ev)) i"
  "transferCount s i \<le> locationCount s i \<Longrightarrow>
   transferCount (commit s (applyEvent lower nn s ev)) i \<le> locationCount (commit s (applyEvent lower nn s ev)) i"
  by (cases "applyEvent lower nn s ev"; simp add: commit_def counts_applyEvent)+

lemma locationCount_run: "locationCount s i \<le> locationCount (run lower nn s evs) i"
proof (induction evs arbitrary: s)
  case Nil
  then show ?case by simp
next
  case (Cons ev evs)
  have "locationCount s i \<le> locationCount (commit s (applyEvent lower nn s ev)) i"
    by (rule counts_commit)
  also have "\<dots> \<le> locationCount (run lower nn (commit s (applyEvent lower nn s ev)) evs) i"
    by (rule Cons.IH)
  finally show ?case by simp
qed

lemma transferCount_run:
  "transferCount s i \<le> locationCount s i \<Longrightarrow>
   transferCount (run lower nn s evs) i \<le> locationCount (run lower nn s evs) i"
  by (induction evs arbitrary: s) (simp_all add: counts_commit)

lemma later_move_ignored:
  assumes "2 \<le> locationCount s i"
  shows "applyEvent lower nn s (TransferEvent i location) = Inr (insertLocation s i location)"
proof -
  let ?s1 = "insertLocation s i location"
  from assms have lc: "3 \<le> locationCount ?s1 i"
    by (simp add: locationCount_insertLocation)
  have "length (transferJoin ?s1 i) \<noteq> 2"
  proof (cases "transferCount ?s1 i = 0")
    case True
    then show ?thesis by (simp add: transferJoin_length)
  next
    case False
    then have "1 \<le> transferCount ?s1 i" by simp
    with lc have "3 * 1 \<le> locationCount ?s1 i * transferCount ?s1 i"
      by (rule mult_le_mono)
    then show ?thesis by (simp add: transferJoin_length)
  qed
  then show ?thesis
    by (simp add: applyEvent_def insertOperationTransfer_def)
qed


lemma settled_first_move:
  assumes counts: "transferCount s i \<le> locationCount s i"
    and res: "applyEvent lower nn s (TransferEvent i location) = Inr s'"
    and changed: "brc20_balances s' \<noteq> brc20_balances s \<or> brc20_transfers s' \<noteq> brc20_transfers s"
  shows "locationCount s i = 1 \<and> transferCount s i = 1 \<and> locationCount s' i = 2"
proof -
  let ?s1 = "insertLocation s i location"
  from res have op: "insertOperationTransfer nn ?s1 i location = Inr s'"
    by (simp add: applyEvent_def)
  have two: "length (transferJoin ?s1 i) = 2"
  proof (rule ccontr)
    assume "length (transferJoin ?s1 i) \<noteq> 2"
    with op have "s' = ?s1" by (simp add: insertOperationTransfer_def)
    with changed show False by (simp add: insertLocation_def)
  qed
  then have prod: "(locationCount s i + 1) * transferCount s i = 2"
    by (simp add: transferJoin_length locationCount_insertLocation transferCount_insertLocation
        min_def split: if_splits)
  have "transferCount s i \<le> (locationCount s i + 1) * transferCount s i" by simp
  with prod have "transferCount s i \<le> 2" by simp
  then have "transferCount s i = 0 \<or> transferCount s i = 1 \<or> transferCount s i = 2" by auto
  with prod counts have first: "locationCount s i = 1 \<and> transferCount s i = 1" by auto
  from insertOperationTransfer_frame(1) [OF op]
  have "locationCount s' i = locationCount s i + 1"
    by (simp add: locationCount_def insertLocation_def)
  with first show ?thesis by simp
qed

text \<open>
  C2. In every state the engine reaches: a movement of an inscription changes balances
  or transfer rows only when the inscription has exactly one earlier location row (its
  genesis) and exactly one transfer row (its reserve), and it leaves the inscription
  with two location rows; from two location rows on, whatever else happens, a movement
  of the inscription does nothing but record its location. So an intent is settled at
  most once. The event log changes only when a deploy is inscribed: a reserve writes no
  event, and neither does a settlement.
\<close>

theorem transfer_settled_once:
  assumes reach: "s = run lower nn empty_db evs"
  shows "(\<forall>s'. applyEvent lower nn s (TransferEvent i location) = Inr s' \<and>
            (brc20_balances s' \<noteq> brc20_balances s \<or> brc20_transfers s' \<noteq> brc20_transfers s) \<longrightarrow>
            locationCount s i = 1 \<and> transferCount s i = 1 \<and> locationCount s' i = 2) \<and>
    (2 \<le> locationCount s i \<longrightarrow>
       (\<forall>more location'.
          applyEvent lower nn (run lower nn s more) (TransferEvent i location') =
            Inr (insertLocation (run lower nn s more) i location'))) \<and>
    (\<forall>ev s'. applyEvent lower nn s ev = Inr s' \<and> brc20_events s' \<noteq> brc20_events s \<longrightarrow>
       (\<exists>j deploy l. ev = GenesisEvent j (Some (Deploy deploy)) l))"
proof -
  have first: "locationCount s i = 1 \<and> transferCount s i = 1 \<and> locationCount s' i = 2"
    if res: "applyEvent lower nn s (TransferEvent i location) = Inr s'"
      and changed: "brc20_balances s' \<noteq> brc20_balances s \<or> brc20_transfers s' \<noteq> brc20_transfers s"
    for s'
  proof -
    have "transferCount empty_db i \<le> locationCount empty_db i"
      by (simp add: transferCount_def empty_db_def)
    then have "transferCount s i \<le> locationCount s i"
      unfolding reach by (rule transferCount_run)
    from this res changed show ?thesis by (rule settled_first_move)
  qed
  have later: "applyEvent lower nn (run lower nn s more) (TransferEvent i location') =
            Inr (insertLocation (run lower nn s more) i location')"
    if "2 \<le> locationCount s i" for more location'
  proof -
    note that
    also have "locationCount s i \<le> locationCount (run lower nn s more) i"
      by (rule locationCount_run)
    finally show ?thesis by (rule later_move_ignored)
  qed
  have deploys_only: "\<exists>j deploy l. ev = GenesisEvent j (Some (Deploy deploy)) l"
    if res: "applyEvent lower nn s ev = Inr s'" and changed: "brc20_events s' \<noteq> brc20_events s"
    for ev s'
  proof (cases ev)
    case (GenesisEvent j brc20 l)
    with res have op: "insertOperationGenesis lower nn (insertLocation s j l) j brc20 l = Inr s'"
      by (simp add: applyEvent_def)
    from changed have "brc20_events s' \<noteq> brc20_events (insertLocation s j l)"
      by (simp add: insertLocation_def)
    from insertOperationGenesis_frame(3) [OF op this] GenesisEvent show ?thesis
      by auto
  next
    case (TransferEvent j l)
    with res have op: "insertOperationTransfer nn (insertLocation s j l) j l = Inr s'"
      by (simp add: applyEvent_def)
    from insertOperationTransfer_frame(2) [OF op] changed show ?thesis
      by (simp add: insertLocation_def)
  qed
  show ?thesis
  proof (intro conjI)
    show "\<forall>s'. applyEvent lower nn s (TransferEvent i location) = Inr s' \<and>
            (brc20_balances s' \<noteq> brc20_balances s \<or> brc20_transfers s' \<noteq> brc20_transfers s) \<longrightarrow>
            locationCount s i = 1 \<and> transferCount s i = 1 \<and> locationCount s' i = 2"
      using first by blast
    show "2 \<le> locationCount s i \<longrightarrow>
       (\<forall>more location'.
          applyEvent lower nn (run lower nn s more) (TransferEvent i location') =
            Inr (insertLocation (run lower nn s more) i location'))"
      using later by blast
    show "\<forall>ev s'. applyEvent lower nn s ev = Inr s' \<and> brc20_events s' \<noteq> brc20_events s \<longrightarrow>
       (\<exists>j deploy l. ev = GenesisEvent j (Some (Deploy deploy)) l)"
      using deploys_only by blast
  qed
qed

theorem transfer_settled_once_witness:
  "applyEvent lower_latin1 False reserved (TransferEvent 3 (at_B 104)) = Inr settled \<and>
   brc20_balances settled \<noteq> brc20_balances reserved \<and>
   locationCount reserved 3 = 1 \<and> transferCount reserved 3 = 1 \<and>
   locationCount settled 3 = 2 \<and>
   applyEvent lower_latin1 False (run lower_latin1 False settled [GenesisEvent 4 (Some (Mint (mint_of ''ordi'' ''5''))) (at_B 105)])
       (TransferEvent 3 (at_A 106)) =
     Inr (insertLocation
       (run lower_latin1 False settled [GenesisEvent 4 (Some (Mint (mint_of ''ordi'' ''5''))) (at_B 105)])
       3 (at_A 106)) \<and>
   applyEvent lower_latin1 False (insertLocation reserved 3 (at_A 102))
       (GenesisEvent 3 (Some (Transfer (transfer_of ''ordi'' ''300''))) (at_A 102)) \<noteq>
     Inr (insertLocation reserved 3 (at_A 102)) \<and>
   brc20_events reserved = [deploy_event] \<and> brc20_events settled = [deploy_event]"
proof -
  have r1: "reserved = run lower_latin1 False empty_db
     [GenesisEvent 1 (Some (Deploy deploy_ordi)) (at_A 100),
      GenesisEvent 2 (Some (Mint (mint_of ''ordi'' ''1000''))) (at_A 101),
      GenesisEvent 3 (Some (Transfer (transfer_of ''ordi'' ''300''))) (at_A 102)]"
    by (simp add: reserved_def)
  have r2: "settled = run lower_latin1 False empty_db
     [GenesisEvent 1 (Some (Deploy deploy_ordi)) (at_A 100),
      GenesisEvent 2 (Some (Mint (mint_of ''ordi'' ''1000''))) (at_A 101),
      GenesisEvent 3 (Some (Transfer (transfer_of ''ordi'' ''300''))) (at_A 102),
      TransferEvent 3 (at_B 104)]"
    by (simp add: settled_def)
  have move: "applyEvent lower_latin1 False reserved (TransferEvent 3 (at_B 104)) = Inr settled"
    by code_simp
  have changed: "brc20_balances settled \<noteq> brc20_balances reserved"
    by code_simp
  from transfer_settled_once [OF r1, of 3 "at_B 104"] move changed
  have first: "locationCount reserved 3 = 1 \<and> transferCount reserved 3 = 1 \<and>
      locationCount settled 3 = 2"
    by blast
  then have "2 \<le> locationCount settled 3" by simp
  with transfer_settled_once [OF r2, of 3]
  have later: "applyEvent lower_latin1 False
       (run lower_latin1 False settled [GenesisEvent 4 (Some (Mint (mint_of ''ordi'' ''5''))) (at_B 105)])
       (TransferEvent 3 (at_A 106)) =
     Inr (insertLocation
       (run lower_latin1 False settled [GenesisEvent 4 (Some (Mint (mint_of ''ordi'' ''5''))) (at_B 105)])
       3 (at_A 106))"
    by blast
  have again: "applyEvent lower_latin1 False (insertLocation reserved 3 (at_A 102))
       (GenesisEvent 3 (Some (Transfer (transfer_of ''ordi'' ''300''))) (at_A 102)) \<noteq>
     Inr (insertLocation reserved 3 (at_A 102))"
    by code_simp
  have events: "brc20_events reserved = [deploy_event]" "brc20_events settled = [deploy_event]"
    by code_simp+
  from move changed first later again events show ?thesis by (intro conjI) simp_all
qed

section \<open>Backpressure and order of the ingestion queue\<close>

lemma tryToStartAnother_order: "in_order (tryToStartAnother q) = in_order q"
  by (simp add: tryToStartAnother_def in_order_def split: list.splits)

lemma tryToStartAnother_pending:
  "length (q_pending q) \<le> concurrency \<Longrightarrow> length (q_pending (tryToStartAnother q)) \<le> concurrency"
  by (simp add: tryToStartAnother_def split: list.splits)

lemma add_order: "in_order (add q j) = in_order q @ [j]"
  by (simp add: add_def tryToStartAnother_order) (simp add: in_order_def)

lemma add_pending:
  "length (q_pending q) \<le> concurrency \<Longrightarrow> length (q_pending (add q j)) \<le> concurrency"
  by (simp add: add_def tryToStartAnother_pending)

lemma jobSettled_order: "in_order (jobSettled q) = in_order q"
  by (cases "q_pending q")
    (simp_all add: jobSettled_def tryToStartAnother_order, simp add: in_order_def)

lemma jobSettled_pending:
  "length (q_pending q) \<le> concurrency \<Longrightarrow> length (q_pending (jobSettled q)) \<le> concurrency"
  by (cases "q_pending q") (simp_all add: jobSettled_def tryToStartAnother_pending)

lemma offers_order:
  "length (q_pending q) \<le> concurrency \<Longrightarrow>
   in_order (offers q sigs) = in_order q @ admitted q sigs \<and>
   length (q_pending (offers q sigs)) \<le> concurrency"
proof (induction q sigs rule: offers.induct)
  case (1 q)
  then show ?case by simp
next
  case (2 q b sigs)
  then show ?case
    by (simp add: onBlock_def add_order add_pending)
next
  case (3 q b sigs)
  then show ?case
    by (simp add: onBlockRollBack_def add_order add_pending)
next
  case (4 q sigs)
  then show ?case
    by (simp add: jobSettled_order jobSettled_pending)
qed

lemma tryToStartAnother_busy:
  "q_waiting (tryToStartAnother q) \<noteq> [] \<Longrightarrow> q_pending (tryToStartAnother q) \<noteq> []"
  by (auto simp: tryToStartAnother_def concurrency_def split: list.splits if_splits)

lemma add_busy: "q_waiting (add q j) \<noteq> [] \<Longrightarrow> q_pending (add q j) \<noteq> []"
  unfolding add_def by (rule tryToStartAnother_busy)

lemma jobSettled_busy:
  assumes "q_waiting q \<noteq> [] \<longrightarrow> q_pending q \<noteq> []"
  shows "q_waiting (jobSettled q) \<noteq> [] \<longrightarrow> q_pending (jobSettled q) \<noteq> []"
proof (cases "q_pending q")
  case Nil
  with assms show ?thesis by (simp add: jobSettled_def)
next
  case (Cons j js)
  then show ?thesis
    by (auto simp: jobSettled_def dest: tryToStartAnother_busy)
qed

lemma offers_busy:
  "q_waiting q \<noteq> [] \<longrightarrow> q_pending q \<noteq> [] \<Longrightarrow>
   q_waiting (offers q sigs) \<noteq> [] \<longrightarrow> q_pending (offers q sigs) \<noteq> []"
proof (induction q sigs rule: offers.induct)
  case (1 q)
  then show ?case by simp
next
  case (2 q b sigs)
  from "2.prems"
  have "q_waiting (snd (onBlock q b)) \<noteq> [] \<longrightarrow> q_pending (snd (onBlock q b)) \<noteq> []"
    by (auto simp: onBlock_def dest: add_busy)
  from "2.IH" [OF this] show ?case by simp
next
  case (3 q b sigs)
  from "3.prems"
  have "q_waiting (snd (onBlockRollBack q b)) \<noteq> [] \<longrightarrow>
      q_pending (snd (onBlockRollBack q b)) \<noteq> []"
    by (auto simp: onBlockRollBack_def dest: add_busy)
  from "3.IH" [OF this] show ?case by simp
next
  case (4 q sigs)
  from "4.IH" [OF jobSettled_busy [OF "4.prems"]] show ?case by simp
qed

lemma jobSettled_fewer:
  assumes one: "length (q_pending q) \<le> concurrency"
    and busy: "q_waiting q \<noteq> [] \<longrightarrow> q_pending q \<noteq> []"
    and n: "length (q_pending q) + length (q_waiting q) \<le> Suc n"
  shows "length (q_pending (jobSettled q)) + length (q_waiting (jobSettled q)) \<le> n"
proof (cases "q_pending q")
  case Nil
  with busy have "q_waiting q = []" by simp
  with Nil show ?thesis by (simp add: jobSettled_def)
next
  case (Cons j js)
  with one have "js = []" by (simp add: concurrency_def)
  with Cons n show ?thesis
    by (cases "q_waiting q") (simp_all add: jobSettled_def tryToStartAnother_def concurrency_def)
qed

lemma drained:
  assumes "length (q_pending q) \<le> concurrency"
    and "q_waiting q \<noteq> [] \<longrightarrow> q_pending q \<noteq> []"
    and "length (q_pending q) + length (q_waiting q) \<le> n"
  shows "offers q (replicate n JobSettled) =
    \<lparr>q_waiting = [], q_pending = [], q_finished = in_order q\<rparr>"
  using assms
proof (induction n arbitrary: q)
  case 0
  then show ?case by (simp add: in_order_def)
next
  case (Suc n)
  have "offers (jobSettled q) (replicate n JobSettled) =
    \<lparr>q_waiting = [], q_pending = [], q_finished = in_order (jobSettled q)\<rparr>"
    using Suc.prems
    by (intro Suc.IH jobSettled_pending jobSettled_busy [THEN mp] jobSettled_fewer impI) simp_all
  then show ?case by (simp add: jobSettled_order)
qed

text \<open>
  C9. On a block and on a rollback alike the callback answers \<^verbatim>\<open>false\<close> exactly when
  more than 10 jobs are waiting, and then leaves the queue alone; otherwise it adds the
  job and answers \<^verbatim>\<open>true\<close>. Whatever offers and completions arrive: at most one job is
  running; the jobs that ran, the running job and the waiting jobs are, in this order,
  the admitted jobs in their order of arrival, applies and rollbacks together; the worker
  is never left without a job while one is waiting; and once as many jobs have settled
  as are running or waiting, the queue is empty and the jobs that ran are all the
  admitted jobs, in the order they arrived.
\<close>

theorem ingestion_queue:
  "fst (onBlock q b) = (\<not> 10 < size_of q) \<and>
   snd (onBlock q b) = (if 10 < size_of q then q else add q (InsertBlock b)) \<and>
   fst (onBlockRollBack q b) = (\<not> 10 < size_of q) \<and>
   snd (onBlockRollBack q b) = (if 10 < size_of q then q else add q (RollBackBlock b)) \<and>
   q_finished (offers idle sigs) @ q_pending (offers idle sigs) @ q_waiting (offers idle sigs)
     = admitted idle sigs \<and>
   length (q_pending (offers idle sigs)) \<le> 1 \<and>
   (q_waiting (offers idle sigs) \<noteq> [] \<longrightarrow> length (q_pending (offers idle sigs)) = 1) \<and>
   (length (q_pending (offers idle sigs)) + length (q_waiting (offers idle sigs)) \<le> n \<longrightarrow>
      offers (offers idle sigs) (replicate n JobSettled) =
        \<lparr>q_waiting = [], q_pending = [], q_finished = admitted idle sigs\<rparr>)"
proof -
  from offers_order [of idle sigs]
  have order: "in_order (offers idle sigs) = admitted idle sigs"
    and one: "length (q_pending (offers idle sigs)) \<le> 1"
    by (simp_all add: in_order_def idle_def concurrency_def)
  from offers_busy [of idle sigs]
  have busy: "q_waiting (offers idle sigs) \<noteq> [] \<longrightarrow> q_pending (offers idle sigs) \<noteq> []"
    by (simp add: idle_def)
  with one have running: "q_waiting (offers idle sigs) \<noteq> [] \<longrightarrow>
      length (q_pending (offers idle sigs)) = 1"
    by (cases "q_pending (offers idle sigs)") auto
  have drain: "offers (offers idle sigs) (replicate n JobSettled) =
        \<lparr>q_waiting = [], q_pending = [], q_finished = admitted idle sigs\<rparr>"
    if "length (q_pending (offers idle sigs)) + length (q_waiting (offers idle sigs)) \<le> n"
    using drained [OF _ busy that] one order by (simp add: concurrency_def)
  from order one running drain show ?thesis
    by (simp add: onBlock_def onBlockRollBack_def in_order_def)
qed

theorem ingestion_queue_witness:
  "size_of (offers idle twelve) = 11 \<and>
   onBlock (offers idle twelve) 12 = (False, offers idle twelve) \<and>
   onBlockRollBack (offers idle twelve) 12 = (False, offers idle twelve) \<and>
   size_of (jobSettled (offers idle twelve)) = 10 \<and>
   onBlockRollBack (jobSettled (offers idle twelve)) 7 =
     (True, add (jobSettled (offers idle twelve)) (RollBackBlock 7)) \<and>
   q_finished (offers idle (twelve @ [BlockOffered 12, JobSettled, RollBackOffered 7, JobSettled]))
     = [InsertBlock 0, InsertBlock 1] \<and>
   q_pending (offers idle (twelve @ [BlockOffered 12, JobSettled, RollBackOffered 7, JobSettled]))
     = [InsertBlock 2] \<and>
   q_waiting (offers idle (twelve @ [BlockOffered 12, JobSettled, RollBackOffered 7, JobSettled]))
     = map InsertBlock [3..<12] @ [RollBackBlock 7] \<and>
   admitted idle (twelve @ [BlockOffered 12, JobSettled, RollBackOffered 7, JobSettled])
     = map InsertBlock [0..<12] @ [RollBackBlock 7] \<and>
   offers (offers idle (twelve @ [BlockOffered 12, JobSettled, RollBackOffered 7, JobSettled]))
       (replicate 11 JobSettled) =
     \<lparr>q_waiting = [], q_pending = [],
      q_finished = map InsertBlock [0..<12] @ [RollBackBlock 7]\<rparr> \<and>
   onBlock idle (5::nat) =
     (True, \<lparr>q_waiting = [], q_pending = [InsertBlock 5], q_finished = []\<rparr>)"
proof -
  let ?sigs = "twelve @ [BlockOffered 12, JobSettled, RollBackOffered 7, JobSettled]"
  have full: "size_of (offers idle twelve) = 11"
    by code_simp
  have room: "size_of (jobSettled (offers idle twelve)) = 10"
    by code_simp
  have fin: "q_finished (offers idle ?sigs) = [InsertBlock 0, InsertBlock 1]"
    by code_simp
  have pen: "q_pending (offers idle ?sigs) = [InsertBlock 2]"
    by code_simp
  have adm: "admitted idle ?sigs = map InsertBlock [0..<12] @ [RollBackBlock 7]"
    by code_simp
  note at_full = ingestion_queue [of "offers idle twelve" 12 ?sigs]
  note at_room = ingestion_queue [of "jobSettled (offers idle twelve)" 7 ?sigs]
  from at_full full have no1: "onBlock (offers idle twelve) 12 = (False, offers idle twelve)"
    by (simp add: prod_eq_iff)
  from at_full full have no2: "onBlockRollBack (offers idle twelve) 12 = (False, offers idle twelve)"
    by (simp add: prod_eq_iff)
  from at_room room have yes: "onBlockRollBack (jobSettled (offers idle twelve)) 7 =
     (True, add (jobSettled (offers idle twelve)) (RollBackBlock 7))"
    by (simp add: prod_eq_iff)
  from at_full fin pen adm
  have wait: "q_waiting (offers idle ?sigs) = map InsertBlock [3..<12] @ [RollBackBlock 7]"
    by (simp add: upt_conv_Cons)
  have left: "length (q_pending (offers idle ?sigs)) + length (q_waiting (offers idle ?sigs)) \<le> 11"
    by code_simp
  note settle = ingestion_queue [of "offers idle twelve" 12 ?sigs 11]
  from settle left adm
  have all_ran: "offers (offers idle ?sigs) (replicate 11 JobSettled) =
     \<lparr>q_waiting = [], q_pending = [],
      q_finished = map InsertBlock [0..<12] @ [RollBackBlock 7]\<rparr>"
    by simp
  have started: "onBlock idle (5::nat) =
     (True, \<lparr>q_waiting = [], q_pending = [InsertBlock 5], q_finished = []\<rparr>)"
    by code_simp
  from full no1 no2 room yes fin pen wait adm all_ran started show ?thesis
    by (intro conjI)
qed

end
